theory Spec2Isabelle
  imports Complex_Main
begin

section \<open>JavaScript strings\<close>

text \<open>
  A JavaScript string is modelled as a list of code units in the range U+0000..U+00FF
  (one \<^typ>\<open>char\<close> each). The character classes below are the restrictions of the
  ECMAScript ones to that range: \<open>\s\<close> and \<open>trim\<close> share the set
  TAB, LF, VT, FF, CR, SPACE, NBSP; \<open>toLowerCase\<close> maps A-Z and the Latin-1
  capitals U+00C0..U+00DE (without U+00D7) to the letter 32 places further.
\<close>

definition isWhitespace :: "char \<Rightarrow> bool" where
  "isWhitespace c =
     (c = CHR 0x09 \<or> c = CHR 0x0A \<or> c = CHR 0x0B \<or> c = CHR 0x0C \<or> c = CHR 0x0D
      \<or> c = CHR 0x20 \<or> c = CHR 0xA0)"

definition lowerChar :: "char \<Rightarrow> char" where
  "lowerChar c =
     (let n = (of_char c :: nat)
      in if (65 \<le> n \<and> n \<le> 90) \<or> (192 \<le> n \<and> n \<le> 222 \<and> n \<noteq> 215)
         then char_of (n + 32) else c)"

definition toLowerCase :: "string \<Rightarrow> string" where
  "toLowerCase s = map lowerChar s"

text \<open>\<open>s.startsWith(k)\<close>, \<open>s.endsWith(k)\<close> and \<open>s.includes(k)\<close>.\<close>

definition startsWith :: "string \<Rightarrow> string \<Rightarrow> bool" where
  "startsWith s k = (take (length k) s = k)"

definition endsWith :: "string \<Rightarrow> string \<Rightarrow> bool" where
  "endsWith s k = startsWith (rev s) (rev k)"

fun includesStr :: "string \<Rightarrow> string \<Rightarrow> bool" where
  "includesStr [] k = (k = [])"
| "includesStr (c # cs) k = (startsWith (c # cs) k \<or> includesStr cs k)"

text \<open>\<open>s.split(d)\<close> for a one-character separator, and \<open>ws.join(d)\<close>.\<close>

fun split :: "char \<Rightarrow> string \<Rightarrow> string list" where
  "split d [] = [[]]"
| "split d (c # cs) =
     (if c = d then [] # split d cs
      else (case split d cs of [] \<Rightarrow> [[c]] | w # ws \<Rightarrow> (c # w) # ws))"

fun join :: "string \<Rightarrow> string list \<Rightarrow> string" where
  "join d [] = []"
| "join d [w] = w"
| "join d (w # v # ws) = w @ d @ join d (v # ws)"

text \<open>\<open>s.trim()\<close>.\<close>

definition trim :: "string \<Rightarrow> string" where
  "trim s = rev (dropWhile isWhitespace (rev (dropWhile isWhitespace s)))"

text \<open>\<open>s.replace(/\n/g, " ")\<close>.\<close>

definition replaceNewlines :: "string \<Rightarrow> string" where
  "replaceNewlines s = map (\<lambda>c. if c = CHR 0x0A then CHR 0x20 else c) s"

text \<open>
  \<open>s.replace(/\s+/g, " ")\<close>: every maximal run of whitespace becomes one space. The
  flag says that the previous code unit was whitespace, so the run is already replaced.
\<close>

fun collapseRuns :: "bool \<Rightarrow> string \<Rightarrow> string" where
  "collapseRuns inRun [] = []"
| "collapseRuns inRun (c # cs) =
     (if isWhitespace c
      then (if inRun then collapseRuns True cs else CHR 0x20 # collapseRuns True cs)
      else c # collapseRuns False cs)"

definition collapseWhitespace :: "string \<Rightarrow> string" where
  "collapseWhitespace s = collapseRuns False s"

section \<open>JSON values and \<open>JSON.parse\<close>\<close>

text \<open>
  The values \<open>JSON.parse\<close> produces. An object keeps its members in source order;
  a repeated key reads as its last occurrence. A number is the exact rational that its
  literal denotes, except that a literal which rounds to the double zero reads as zero,
  so that a number is zero here exactly when it is zero in the program; the rounding of
  the other literals is not modelled.
\<close>

datatype json =
    JNull
  | JBool bool
  | JNum rat
  | JStr string
  | JArr "json list"
  | JObj "(string \<times> json) list"

datatype token =
    LBrace | RBrace | LBracket | RBracket | Colon | Comma
  | StrTok string | NumTok rat | TrueTok | FalseTok | NullTok

definition isJsonWs :: "char \<Rightarrow> bool" where
  "isJsonWs c = (c = CHR 0x20 \<or> c = CHR 0x09 \<or> c = CHR 0x0A \<or> c = CHR 0x0D)"

definition isDigit :: "char \<Rightarrow> bool" where
  "isDigit c = (48 \<le> (of_char c :: nat) \<and> (of_char c :: nat) \<le> 57)"

definition digitsVal :: "string \<Rightarrow> nat" where
  "digitsVal ds = foldl (\<lambda>n d. 10 * n + ((of_char d :: nat) - 48)) 0 ds"

definition hexVal :: "char \<Rightarrow> nat option" where
  "hexVal c =
     (let n = (of_char c :: nat)
      in if 48 \<le> n \<and> n \<le> 57 then Some (n - 48)
         else if 65 \<le> n \<and> n \<le> 70 then Some (n - 55)
         else if 97 \<le> n \<and> n \<le> 102 then Some (n - 87)
         else None)"

text \<open>
  The code unit of \<open>\uXXXX\<close>. A code unit above U+00FF is outside the modelled
  alphabet and is read as the substitute character U+001A: the escape is still accepted.
\<close>

definition unicodeEscape :: "nat list \<Rightarrow> char" where
  "unicodeEscape ds =
     (let n = foldl (\<lambda>n d. 16 * n + d) 0 ds
      in if n < 256 then char_of n else CHR 0x1A)"

definition simpleEscape :: "char \<Rightarrow> char option" where
  "simpleEscape e =
     (if e = CHR 0x22 then Some (CHR 0x22)
      else if e = CHR 0x5C then Some (CHR 0x5C)
      else if e = CHR ''/'' then Some (CHR ''/'')
      else if e = CHR ''b'' then Some (CHR 0x08)
      else if e = CHR ''f'' then Some (CHR 0x0C)
      else if e = CHR ''n'' then Some (CHR 0x0A)
      else if e = CHR ''r'' then Some (CHR 0x0D)
      else if e = CHR ''t'' then Some (CHR 0x09)
      else None)"

text \<open>
  The rest of a string literal after its opening quote, one code unit at a time: the
  decoded text and what follows the closing quote. The state says whether a backslash or
  the hexadecimal digits of \<open>\u\<close> were just read. Control characters below U+0020
  are not allowed unescaped.
\<close>

datatype strState = Plain | Escaped | Hex "nat list"

fun lexString :: "strState \<Rightarrow> string \<Rightarrow> string \<Rightarrow> (string \<times> string) option" where
  "lexString st acc [] = None"
| "lexString Plain acc (c # cs) =
     (if c = CHR 0x22 then Some (rev acc, cs)
      else if c = CHR 0x5C then lexString Escaped acc cs
      else if (of_char c :: nat) < 32 then None
      else lexString Plain (c # acc) cs)"
| "lexString Escaped acc (c # cs) =
     (if c = CHR ''u'' then lexString (Hex []) acc cs
      else (case simpleEscape c of
              None \<Rightarrow> None
            | Some x \<Rightarrow> lexString Plain (x # acc) cs))"
| "lexString (Hex ds) acc (c # cs) =
     (case hexVal c of
        None \<Rightarrow> None
      | Some d \<Rightarrow>
          (if length ds = 3 then lexString Plain (unicodeEscape (ds @ [d]) # acc) cs
           else lexString (Hex (ds @ [d])) acc cs))"

text \<open>
  A number literal: \<open>-? (0 | [1-9][0-9]*) (. [0-9]+)? ([eE] [+-]? [0-9]+)?\<close>.
\<close>

definition fracPart :: "string \<Rightarrow> (rat \<times> string) option" where
  "fracPart cs =
     (case cs of
        c # r \<Rightarrow>
          (if c = CHR ''.'' then
             (let ds = takeWhile isDigit r
              in if ds = [] then None
                 else Some (of_nat (digitsVal ds) / 10 ^ length ds, dropWhile isDigit r))
           else Some (0, cs))
      | [] \<Rightarrow> Some (0, cs))"

definition expDigits :: "bool \<Rightarrow> string \<Rightarrow> (int \<times> string) option" where
  "expDigits neg r =
     (let ds = takeWhile isDigit r
      in if ds = [] then None
         else Some ((if neg then - int (digitsVal ds) else int (digitsVal ds)),
                    dropWhile isDigit r))"

definition expPart :: "string \<Rightarrow> (int \<times> string) option" where
  "expPart cs =
     (case cs of
        c # r \<Rightarrow>
          (if c = CHR ''e'' \<or> c = CHR ''E'' then
             (case r of
                s # r' \<Rightarrow>
                  (if s = CHR ''+'' then expDigits False r'
                   else if s = CHR ''-'' then expDigits True r'
                   else expDigits False r)
              | [] \<Rightarrow> None)
           else Some (0, cs))
      | [] \<Rightarrow> Some (0, cs))"

definition scale10 :: "rat \<Rightarrow> int \<Rightarrow> rat" where
  "scale10 x e = (if 0 \<le> e then x * 10 ^ nat e else x / 10 ^ nat (- e))"

text \<open>
  A literal rounds to the double zero when its magnitude is at most 2 to the power of
  -1075, half of the least positive double. The test is made on the numerator and the
  denominator of the fraction in lowest terms.
\<close>

definition underflows :: "rat \<Rightarrow> bool" where
  "underflows x = (case quotient_of x of (a, b) \<Rightarrow> \<bar>a\<bar> * 2 ^ 1075 \<le> b)"

definition lexNumber :: "string \<Rightarrow> (rat \<times> string) option" where
  "lexNumber cs =
     (let neg = (case cs of c # r \<Rightarrow> c = CHR ''-'' | [] \<Rightarrow> False);
          cs1 = (if neg then tl cs else cs);
          ip = takeWhile isDigit cs1
      in if ip = [] \<or> (1 < length ip \<and> hd ip = CHR ''0'') then None
         else
           (case fracPart (dropWhile isDigit cs1) of
              None \<Rightarrow> None
            | Some (fr, cs3) \<Rightarrow>
                (case expPart cs3 of
                   None \<Rightarrow> None
                 | Some (ex, cs4) \<Rightarrow>
                     (let m = scale10 (of_nat (digitsVal ip) + fr) ex
                      in Some (if underflows m then 0 else if neg then - m else m, cs4)))))"

lemma underflows_iff: "underflows x \<longleftrightarrow> \<bar>x\<bar> \<le> 1 / 2 ^ 1075"
proof -
  obtain a b where q: "quotient_of x = (a, b)"
    by (cases "quotient_of x")
  then have b: "0 < b" and x: "x = of_int a / of_int b"
    by (simp_all add: quotient_of_denom_pos quotient_of_div)
  define c :: int where "c = 2 ^ 1075"
  have c: "0 < c" and c': "(2 :: rat) ^ 1075 = of_int c"
    by (simp_all add: c_def del: power_numeral)
  have "\<bar>x\<bar> = of_int \<bar>a\<bar> / of_int b"
    using b unfolding x by simp
  then have "\<bar>x\<bar> \<le> 1 / 2 ^ 1075 \<longleftrightarrow> (of_int \<bar>a\<bar> :: rat) / of_int b \<le> 1 / of_int c"
    unfolding c' by simp
  also have "\<dots> \<longleftrightarrow> (of_int (\<bar>a\<bar> * c) :: rat) \<le> of_int b"
    using b c by (simp add: field_simps)
  also have "\<dots> \<longleftrightarrow> \<bar>a\<bar> * c \<le> b"
    by (rule of_int_le_iff)
  finally show ?thesis
    unfolding underflows_def q c_def by simp
qed

lemma lexString_length:
  "lexString st acc cs = Some (s, rest) \<Longrightarrow> length rest < length cs"
  by (induction st acc cs arbitrary: s rest rule: lexString.induct)
     (auto split: if_splits option.splits intro: less_SucI)

lemma fracPart_length:
  "fracPart cs = Some (fr, rest) \<Longrightarrow> length rest \<le> length cs"
  by (auto simp: fracPart_def Let_def split: list.splits if_splits
      intro: le_SucI length_dropWhile_le)

lemma expDigits_length:
  "expDigits neg cs = Some (ex, rest) \<Longrightarrow> length rest \<le> length cs"
  by (auto simp: expDigits_def Let_def split: if_splits intro: length_dropWhile_le)

lemma expPart_length:
  "expPart cs = Some (ex, rest) \<Longrightarrow> length rest \<le> length cs"
  by (auto simp: expPart_def split: list.splits if_splits
      dest!: expDigits_length)

lemma dropWhile_shorter:
  "takeWhile P xs \<noteq> [] \<Longrightarrow> length (dropWhile P xs) < length xs"
  by (cases xs) (auto simp: le_imp_less_Suc length_dropWhile_le split: if_splits)

lemma lexNumber_length:
  assumes "lexNumber cs = Some (n, rest)"
  shows "length rest < length cs"
proof -
  define cs1 where "cs1 = (if (case cs of c # r \<Rightarrow> c = CHR ''-'' | [] \<Rightarrow> False) then tl cs else cs)"
  have len1: "length cs1 \<le> length cs"
    by (simp add: cs1_def)
  from assms have ip: "takeWhile isDigit cs1 \<noteq> []"
    by (auto simp: lexNumber_def Let_def cs1_def split: if_splits)
  from assms obtain fr cs3 ex where
    fr: "fracPart (dropWhile isDigit cs1) = Some (fr, cs3)" and
    ex: "expPart cs3 = Some (ex, rest)"
    by (auto simp: lexNumber_def Let_def cs1_def split: if_splits option.splits)
  have "length rest \<le> length cs3"
    using ex by (rule expPart_length)
  also have "\<dots> \<le> length (dropWhile isDigit cs1)"
    using fr by (rule fracPart_length)
  also have "\<dots> < length cs1"
    using ip by (rule dropWhile_shorter)
  finally show ?thesis
    using len1 by simp
qed

text \<open>
  One step of the lexer at the code unit \<open>c\<close> followed by \<open>cs\<close>: the token that
  starts there (no token for whitespace) and the text after it, or None where no token
  starts.
\<close>

definition lexToken :: "char \<Rightarrow> string \<Rightarrow> (token option \<times> string) option" where
  "lexToken c cs =
     (if c = CHR 0x22 then
        (case lexString Plain [] cs of
           None \<Rightarrow> None
         | Some (s, rest) \<Rightarrow> Some (Some (StrTok s), rest))
      else if c = CHR ''-'' \<or> isDigit c then
        (case lexNumber (c # cs) of
           None \<Rightarrow> None
         | Some (n, rest) \<Rightarrow> Some (Some (NumTok n), rest))
      else if isJsonWs c then Some (None, cs)
      else if c = CHR ''{'' then Some (Some LBrace, cs)
      else if c = CHR ''}'' then Some (Some RBrace, cs)
      else if c = CHR ''['' then Some (Some LBracket, cs)
      else if c = CHR '']'' then Some (Some RBracket, cs)
      else if c = CHR '':'' then Some (Some Colon, cs)
      else if c = CHR '','' then Some (Some Comma, cs)
      else if startsWith (c # cs) ''true'' then Some (Some TrueTok, drop 3 cs)
      else if startsWith (c # cs) ''false'' then Some (Some FalseTok, drop 4 cs)
      else if startsWith (c # cs) ''null'' then Some (Some NullTok, drop 3 cs)
      else None)"

lemma lexToken_length:
  assumes "lexToken c cs = Some (t, rest)"
  shows "length rest \<le> length cs"
proof (cases "c = CHR 0x22")
  case True
  then have "lexToken c cs =
      (case lexString Plain [] cs of None \<Rightarrow> None
       | Some (s, rest) \<Rightarrow> Some (Some (StrTok s), rest))"
    by (simp only: lexToken_def simp_thms if_True)
  with assms obtain s where "lexString Plain [] cs = Some (s, rest)"
    by (auto split: option.splits)
  then have "length rest < length cs"
    by (rule lexString_length)
  then show ?thesis
    by simp
next
  case nq: False
  show ?thesis
  proof (cases "c = CHR ''-'' \<or> isDigit c")
    case True
    with nq have "lexToken c cs =
        (case lexNumber (c # cs) of None \<Rightarrow> None
         | Some (n, rest) \<Rightarrow> Some (Some (NumTok n), rest))"
      by (simp only: lexToken_def simp_thms if_True if_False)
    with assms obtain n where "lexNumber (c # cs) = Some (n, rest)"
      by (auto split: option.splits)
    then have "length rest < length (c # cs)"
      by (rule lexNumber_length)
    then show ?thesis
      by simp
  next
    case False
    with nq have "lexToken c cs =
       (if isJsonWs c then Some (None, cs)
        else if c = CHR ''{'' then Some (Some LBrace, cs)
        else if c = CHR ''}'' then Some (Some RBrace, cs)
        else if c = CHR ''['' then Some (Some LBracket, cs)
        else if c = CHR '']'' then Some (Some RBracket, cs)
        else if c = CHR '':'' then Some (Some Colon, cs)
        else if c = CHR '','' then Some (Some Comma, cs)
        else if startsWith (c # cs) ''true'' then Some (Some TrueTok, drop 3 cs)
        else if startsWith (c # cs) ''false'' then Some (Some FalseTok, drop 4 cs)
        else if startsWith (c # cs) ''null'' then Some (Some NullTok, drop 3 cs)
        else None)"
      by (simp only: lexToken_def simp_thms if_False)
    with assms have "rest = cs \<or> rest = drop 3 cs \<or> rest = drop 4 cs"
      by (simp split: if_splits)
    then show ?thesis
      by auto
  qed
qed

text \<open>The token sequence of a JSON text, or None where no token starts.\<close>

function lexer :: "string \<Rightarrow> token list option" where
  "lexer [] = Some []"
| "lexer (c # cs) =
     (case lexToken c cs of
        None \<Rightarrow> None
      | Some (None, rest) \<Rightarrow> lexer rest
      | Some (Some t, rest) \<Rightarrow> map_option (Cons t) (lexer rest))"
  by pat_completeness auto
termination
  by (relation "measure length") (auto dest: lexToken_length)

text \<open>
  The parser reads the tokens one at a time. Its stack holds the containers that are
  still open: an array with its elements so far, an object with its members so far, and
  above an object the key whose value is being read (all newest first).
\<close>

datatype frame = ArrF "json list" | ObjF "(string \<times> json) list" | KeyF string

datatype expect =
    WantValue | WantValueOrEnd | WantKeyOrEnd | WantKey | WantColon | WantCommaOrEnd
  | Finished json

fun putValue :: "json \<Rightarrow> frame list \<Rightarrow> (expect \<times> frame list) option" where
  "putValue v [] = Some (Finished v, [])"
| "putValue v (ArrF xs # st) = Some (WantCommaOrEnd, ArrF (v # xs) # st)"
| "putValue v (KeyF k # ObjF kvs # st) = Some (WantCommaOrEnd, ObjF ((k, v) # kvs) # st)"
| "putValue v st = None"

definition startValue :: "token \<Rightarrow> frame list \<Rightarrow> (expect \<times> frame list) option" where
  "startValue t st =
     (case t of
        LBrace \<Rightarrow> Some (WantKeyOrEnd, ObjF [] # st)
      | LBracket \<Rightarrow> Some (WantValueOrEnd, ArrF [] # st)
      | StrTok s \<Rightarrow> putValue (JStr s) st
      | NumTok n \<Rightarrow> putValue (JNum n) st
      | TrueTok \<Rightarrow> putValue (JBool True) st
      | FalseTok \<Rightarrow> putValue (JBool False) st
      | NullTok \<Rightarrow> putValue JNull st
      | _ \<Rightarrow> None)"

definition closeArray :: "frame list \<Rightarrow> (expect \<times> frame list) option" where
  "closeArray st = (case st of ArrF xs # st' \<Rightarrow> putValue (JArr (rev xs)) st' | _ \<Rightarrow> None)"

definition closeObject :: "frame list \<Rightarrow> (expect \<times> frame list) option" where
  "closeObject st = (case st of ObjF kvs # st' \<Rightarrow> putValue (JObj (rev kvs)) st' | _ \<Rightarrow> None)"

definition parseStep :: "token \<Rightarrow> expect \<Rightarrow> frame list \<Rightarrow> (expect \<times> frame list) option" where
  "parseStep t e st =
     (case e of
        WantValue \<Rightarrow> startValue t st
      | WantValueOrEnd \<Rightarrow> (if t = RBracket then closeArray st else startValue t st)
      | WantKeyOrEnd \<Rightarrow>
          (case t of
             RBrace \<Rightarrow> closeObject st
           | StrTok k \<Rightarrow> Some (WantColon, KeyF k # st)
           | _ \<Rightarrow> None)
      | WantKey \<Rightarrow> (case t of StrTok k \<Rightarrow> Some (WantColon, KeyF k # st) | _ \<Rightarrow> None)
      | WantColon \<Rightarrow> (if t = Colon then Some (WantValue, st) else None)
      | WantCommaOrEnd \<Rightarrow>
          (case (t, st) of
             (Comma, ArrF xs # st') \<Rightarrow> Some (WantValue, st)
           | (Comma, ObjF kvs # st') \<Rightarrow> Some (WantKey, st)
           | (RBracket, _) \<Rightarrow> closeArray st
           | (RBrace, _) \<Rightarrow> closeObject st
           | _ \<Rightarrow> None)
      | Finished v \<Rightarrow> None)"

fun parseTokens :: "token list \<Rightarrow> expect \<Rightarrow> frame list \<Rightarrow> json option" where
  "parseTokens [] e st = (case e of Finished v \<Rightarrow> Some v | _ \<Rightarrow> None)"
| "parseTokens (t # ts) e st =
     (case parseStep t e st of
        None \<Rightarrow> None
      | Some (e', st') \<Rightarrow> parseTokens ts e' st')"

text \<open>\<open>JSON.parse(text)\<close>: the value, or None where it throws a SyntaxError.\<close>

definition JSON_parse :: "string \<Rightarrow> json option" where
  "JSON_parse s = (case lexer s of None \<Rightarrow> None | Some ts \<Rightarrow> parseTokens ts WantValue [])"

section \<open>Reports, tests and insights\<close>

text \<open>
  The fields of a Mochawesome test that the scripts read. \<open>None\<close> is a field that is
  absent; for \<open>ai\<close> it also stands for any falsy value, which \<open>!test.ai\<close> and
  \<open>t.ai || null\<close> treat as absent.
\<close>

datatype js_error =
    MalformedResponse
  | EmptyResponse
  | ApiKeyMissing
  | AllModelsFailed
  | ProviderFailure
  | TypeError
  | SyntaxError

record insight =
  summary :: string
  humanError :: "json option"
  testRootCause :: "json option"
  productRootCause :: "json option"
  bugEffect :: "json option"
  inferredExpected :: "json option"
  recommendation :: string
  severity :: string
  confidence :: rat
  tags :: "json list"
  modelUsed :: "string option"

record err =
  message :: "string option"
  stack :: "string option"
  estack :: "string option"

record test =
  title :: "string option"
  fullTitle :: "string option"
  fail :: bool
  state :: "string option"
  err :: "err option"
  code :: "string option"
  duration :: "nat option"
  ai :: "insight option"

section \<open>enrichResults.js: utilities\<close>

text \<open>Truthiness of a JSON value, \<open>x || d\<close>, and reading a property of a non-null value.\<close>

fun truthy :: "json \<Rightarrow> bool" where
  "truthy JNull = False"
| "truthy (JBool b) = b"
| "truthy (JNum n) = (n \<noteq> 0)"
| "truthy (JStr s) = (s \<noteq> [])"
| "truthy (JArr xs) = True"
| "truthy (JObj kvs) = True"

definition orElse :: "json option \<Rightarrow> json \<Rightarrow> json" where
  "orElse x d = (case x of None \<Rightarrow> d | Some v \<Rightarrow> if truthy v then v else d)"

definition getProp :: "json \<Rightarrow> string \<Rightarrow> json option" where
  "getProp data k = (case data of JObj kvs \<Rightarrow> map_of (rev kvs) k | _ \<Rightarrow> None)"

text \<open>
  \<open>cleanText(str)\<close>: \<open>(str || "").replace(/\n/g, " ").replace(/\s+/g, " ").trim()\<close>.
  A truthy value that is not a string has no \<open>replace\<close> method: the call throws a
  TypeError.
\<close>

definition cleanText :: "json option \<Rightarrow> js_error + string" where
  "cleanText str =
     (case orElse str (JStr []) of
        JStr s \<Rightarrow> Inr (trim (collapseWhitespace (replaceNewlines s)))
      | _ \<Rightarrow> Inl TypeError)"

text \<open>
  \<open>deriveTags(errorMsg, fullTitle)\<close>. An undefined argument is concatenated as the text
  \<open>undefined\<close>. The set keeps insertion order, and each tag is added at most once.
\<close>

definition toStr :: "string option \<Rightarrow> string" where
  "toStr x = (case x of None \<Rightarrow> ''undefined'' | Some s \<Rightarrow> s)"

definition deriveTags :: "string option \<Rightarrow> string option \<Rightarrow> string list" where
  "deriveTags errorMsg fullTitle' =
     (let text = toLowerCase (toStr errorMsg @ '' '' @ toStr fullTitle')
      in take 4
          ((if includesStr text ''timeout'' \<or> includesStr text ''waited''
            then [''timing''] else [])
           @ (if includesStr text ''get'' \<or> includesStr text ''find''
                 \<or> includesStr text ''contains''
              then [''selector''] else [])
           @ (if includesStr text ''401'' \<or> includesStr text ''403''
                 \<or> includesStr text ''login''
              then [''auth''] else [])
           @ (if includesStr text ''500'' \<or> includesStr text ''fetch''
                 \<or> includesStr text ''network''
              then [''network''] else [])
           @ (if includesStr text ''expect'' \<or> includesStr text ''assert''
              then [''assertion''] else [])))"

definition errMessage :: "test \<Rightarrow> string option" where
  "errMessage t = (case err t of None \<Rightarrow> None | Some e \<Rightarrow> message e)"

section \<open>enrichResults.js: validateAndSanitize\<close>

text \<open>
  \<open>rawJson.match(/\{[\s\S]*\}/)\<close>: the match starts at the first opening brace and,
  being greedy, ends at the last closing brace after it; there is no match when no
  closing brace follows the first opening one.
\<close>

definition matchBraces :: "string \<Rightarrow> string option" where
  "matchBraces rawJson =
     (let fromBrace = dropWhile (\<lambda>c. c \<noteq> CHR ''{'') rawJson
      in if CHR ''}'' \<in> set fromBrace
         then Some (rev (dropWhile (\<lambda>c. c \<noteq> CHR ''}'') (rev fromBrace)))
         else None)"

definition extractJson :: "string \<Rightarrow> string" where
  "extractJson rawJson = (case matchBraces rawJson of Some m \<Rightarrow> m | None \<Rightarrow> rawJson)"

text \<open>
  \<open>data.severity?.toLowerCase()\<close> and the membership test: undefined and null give the
  default; any other value that is not a string has no \<open>toLowerCase\<close> method.
\<close>

definition severityOf :: "json option \<Rightarrow> js_error + string" where
  "severityOf sev =
     (case sev of
        None \<Rightarrow> Inr ''medium''
      | Some JNull \<Rightarrow> Inr ''medium''
      | Some (JStr s) \<Rightarrow>
          Inr (if toLowerCase s \<in> set [''low'', ''medium'', ''high'', ''critical'']
               then toLowerCase s else ''medium'')
      | Some other \<Rightarrow> Inl TypeError)"

definition confidenceOf :: "json option \<Rightarrow> rat" where
  "confidenceOf c = (case c of Some (JNum x) \<Rightarrow> min (max x 0) 1 | _ \<Rightarrow> 1 / 2)"

definition tagsOf :: "json option \<Rightarrow> test \<Rightarrow> json list" where
  "tagsOf ts originalTest =
     (case ts of
        Some (JArr (x # xs)) \<Rightarrow> take 5 (x # xs)
      | _ \<Rightarrow> map JStr (deriveTags (errMessage originalTest) (title originalTest)))"

definition padRecommendation :: "string \<Rightarrow> string" where
  "padRecommendation r =
     (if length (split (CHR '' '') r) < 10
      then r @ '' Please review the test logic and error stack for more details.''
      else r)"

text \<open>\<open>recommendation.replace(/\.\.\.$/, ".")\<close>.\<close>

definition stripEllipsis :: "string \<Rightarrow> string" where
  "stripEllipsis r = (if endsWith r ''...'' then take (length r - 3) r @ ''.'' else r)"

text \<open>
  The object that \<open>validateAndSanitize\<close> returns, from the parsed value and the three
  texts computed before it: the summary cut to 15 words, the repaired recommendation and
  the severity.
\<close>

definition insightOf :: "json \<Rightarrow> test \<Rightarrow> string \<Rightarrow> string \<Rightarrow> string \<Rightarrow> insight" where
  "insightOf data originalTest summary' recommendation' severity' =
     \<lparr> summary = (if summary' = [] then ''Investigate failure reason.'' else summary'),
       humanError = Some (orElse (getProp data ''humanError'')
         (JStr ''An error occurred during the test execution.'')),
       testRootCause = Some (orElse (getProp data ''testRootCause'')
         (JStr ''Assertion or selector failure detected in test code.'')),
       productRootCause = Some (orElse (getProp data ''productRootCause'')
         (JStr ''Possible defect in application logic or responsiveness.'')),
       bugEffect = Some (orElse (getProp data ''bugEffect'')
         (JStr ''User flow is blocked or behavior is inconsistent.'')),
       inferredExpected = Some (orElse (getProp data ''inferredExpected'')
         (JStr ''The application should behave as defined in the test requirement.'')),
       recommendation = recommendation',
       severity = severity',
       confidence = confidenceOf (getProp data ''confidence''),
       tags = tagsOf (getProp data ''tags'') originalTest,
       modelUsed = None \<rparr>"

text \<open>
  The contract enforcement on the parsed value. Reading a property of \<open>null\<close> throws a
  TypeError; every other value has properties (none, unless it is an object).
\<close>

definition sanitize :: "json \<Rightarrow> test \<Rightarrow> js_error + insight" where
  "sanitize data originalTest =
     (if data = JNull then Inl TypeError
      else
        (case cleanText (getProp data ''summary'') of
           Inl e \<Rightarrow> Inl e
         | Inr cleaned \<Rightarrow>
             (case cleanText (getProp data ''recommendation'') of
                Inl e \<Rightarrow> Inl e
              | Inr r \<Rightarrow>
                  (case severityOf (getProp data ''severity'') of
                     Inl e \<Rightarrow> Inl e
                   | Inr sev \<Rightarrow>
                       Inr (insightOf data originalTest
                              (join '' '' (take 15 (split (CHR '' '') cleaned)))
                              (stripEllipsis (padRecommendation r))
                              sev)))))"

text \<open>
  \<open>validateAndSanitize(rawJson, originalTest)\<close>. The extraction and \<open>JSON.parse\<close>
  stand in the \<open>try\<close> block: whatever they throw is rethrown as
  \<open>Error("Malformed JSON response")\<close>. The returned object has no \<open>modelUsed\<close>
  property.
\<close>

definition validateAndSanitize :: "string \<Rightarrow> test \<Rightarrow> js_error + insight" where
  "validateAndSanitize rawJson originalTest =
     (case JSON_parse (extractJson rawJson) of
        None \<Rightarrow> Inl MalformedResponse
      | Some data \<Rightarrow> sanitize data originalTest)"

section \<open>enrichResults.js: the provider client\<close>

text \<open>
  \<open>CONFIG.models\<close>, and the client: \<open>HF_API_KEY\<close> is the first truthy one of three
  environment variables (an empty value is falsy), and \<open>hf\<close> is a client for that key or
  \<open>null\<close>.
\<close>

definition CONFIG_models :: "string list" where
  "CONFIG_models =
     [''meta-llama/Meta-Llama-3-8B-Instruct'',
      ''mistralai/Mixtral-8x7B-Instruct-v0.1'',
      ''microsoft/Phi-3-mini-4k-instruct'']"

record env =
  HUGGINGFACE_API_TOKEN :: "string option"
  HF_API_KEY_var :: "string option"
  HUGGINGFACEHUB_API_TOKEN :: "string option"

definition strTruthy :: "string option \<Rightarrow> bool" where
  "strTruthy x = (case x of None \<Rightarrow> False | Some s \<Rightarrow> s \<noteq> [])"

definition HF_API_KEY :: "env \<Rightarrow> string option" where
  "HF_API_KEY e =
     (if strTruthy (HUGGINGFACE_API_TOKEN e) then HUGGINGFACE_API_TOKEN e
      else if strTruthy (HF_API_KEY_var e) then HF_API_KEY_var e
      else HUGGINGFACEHUB_API_TOKEN e)"

definition hf :: "env \<Rightarrow> string option" where
  "hf e = (if strTruthy (HF_API_KEY e) then HF_API_KEY e else None)"

text \<open>
  \<open>buildPrompt(test)\<close>: the prompt is a fixed template with the values of \<open>context\<close>
  interpolated; the model keeps those values and leaves the template text out.
\<close>

record prompt =
  ctxTitle :: "string option"
  ctxError :: string
  ctxStack :: string
  ctxCode :: string
  ctxDuration :: "nat option"

definition strOr :: "string option \<Rightarrow> string option \<Rightarrow> string option" where
  "strOr x y = (if strTruthy x then x else y)"

definition buildPrompt :: "test \<Rightarrow> prompt" where
  "buildPrompt t =
     (let e = (case err t of None \<Rightarrow> \<lparr>message = None, stack = None, estack = None\<rparr>
               | Some e \<Rightarrow> e)
      in \<lparr> ctxTitle = strOr (fullTitle t) (title t),
           ctxError = (case strOr (message e) (Some ''Unknown error'') of
                         Some m \<Rightarrow> m | None \<Rightarrow> []),
           ctxStack = (case strOr (strOr (stack e) (estack e)) (Some []) of
                         Some st \<Rightarrow> join '' '' (take 3 (split (CHR 0x0A) st))
                       | None \<Rightarrow> []),
           ctxCode = (case strOr (code t) (Some []) of Some c \<Rightarrow> take 500 c | None \<Rightarrow> []),
           ctxDuration = duration t \<rparr>)"

text \<open>
  The remote provider is a parameter: from its state, a model name and a prompt it gives
  a reply and its next state. A reply is a rejected promise (network error, time-out,
  HTTP error, a response without \<open>choices\<close>) or a response with the text of
  \<open>choices[0]?.message?.content\<close>, if any. The network state records every request sent
  and the time slept.
\<close>

datatype reply = Rejected | Resolved "string option"

type_synonym 'w provider = "'w \<Rightarrow> string \<Rightarrow> prompt \<Rightarrow> reply \<times> 'w"

record 'w net =
  world :: 'w
  sent :: "(string \<times> prompt) list"
  slept :: nat

definition chatCompletion ::
  "'w provider \<Rightarrow> string \<Rightarrow> prompt \<Rightarrow> 'w net \<Rightarrow> reply \<times> 'w net" where
  "chatCompletion prov model prompt n =
     (case prov (world n) model prompt of
        (r, w') \<Rightarrow> (r, n\<lparr>world := w', sent := sent n @ [(model, prompt)]\<rparr>))"

definition sleep :: "nat \<Rightarrow> 'w net \<Rightarrow> 'w net" where
  "sleep ms n = n\<lparr>slept := slept n + ms\<rparr>"

section \<open>enrichResults.js: getAiInsight and getFallbackInsight\<close>

text \<open>What the body of the \<open>try\<close> block makes of one model's reply.\<close>

definition attempt :: "reply \<Rightarrow> test \<Rightarrow> string \<Rightarrow> js_error + insight" where
  "attempt r t model =
     (case r of
        Rejected \<Rightarrow> Inl ProviderFailure
      | Resolved None \<Rightarrow> Inl EmptyResponse
      | Resolved (Some content) \<Rightarrow>
          (if content = [] then Inl EmptyResponse
           else (case validateAndSanitize content t of
                   Inl e \<Rightarrow> Inl e
                 | Inr enriched \<Rightarrow> Inr (enriched\<lparr>modelUsed := Some model\<rparr>))))"

text \<open>
  The loop \<open>for (const model of CONFIG.models)\<close>, over the models still to try: every
  error of an attempt is caught and the loop goes on; after the last model the function
  throws \<open>Error("All AI models failed")\<close>.
\<close>

fun tryModels ::
  "'w provider \<Rightarrow> test \<Rightarrow> prompt \<Rightarrow> string list \<Rightarrow> 'w net \<Rightarrow> (js_error + insight) \<times> 'w net"
  where
  "tryModels prov t prompt [] n = (Inl AllModelsFailed, n)"
| "tryModels prov t prompt (model # rest) n =
     (case chatCompletion prov model prompt
             (if model \<noteq> hd CONFIG_models then sleep 2000 n else n) of
        (r, n') \<Rightarrow>
          (case attempt r t model of
             Inr enriched \<Rightarrow> (Inr enriched, n')
           | Inl e \<Rightarrow> tryModels prov t prompt rest n'))"

definition getAiInsight ::
  "'w provider \<Rightarrow> string option \<Rightarrow> test \<Rightarrow> 'w net \<Rightarrow> (js_error + insight) \<times> 'w net" where
  "getAiInsight prov client t n =
     (case client of
        None \<Rightarrow> (Inl ApiKeyMissing, n)
      | Some key \<Rightarrow> tryModels prov t (buildPrompt t) CONFIG_models n)"

definition getFallbackInsight :: "test \<Rightarrow> insight" where
  "getFallbackInsight t =
     (let msg = (case errMessage t of None \<Rightarrow> [] | Some m \<Rightarrow> m)
      in \<lparr> summary = ''AI analysis unavailable.'',
           humanError = None,
           testRootCause = None,
           productRootCause = None,
           bugEffect = None,
           inferredExpected = None,
           recommendation = ''Manual review required. Check the error logs and screenshot artifacts to diagnose the issue.'',
           severity = ''medium'',
           confidence = 0,
           tags = map JStr (''ai-unavailable'' # deriveTags (Some msg) (title t)),
           modelUsed = None \<rparr>)"

section \<open>enrichResults.js: the pipeline on one report\<close>

datatype suite =
  Suite (suiteTitle: "string option") (file': "string option") (fullFile: "string option")
        (suiteTests: "test list") (subSuites: "suite list")

text \<open>
  The counters of \<open>stats\<close>. A fragment read from a file may lack any of them; the master
  report of \<open>getResults\<close> has them all.
\<close>

record stats =
  suites :: "nat option"
  tests :: "nat option"
  passes :: "nat option"
  pending :: "nat option"
  failures :: "nat option"
  start :: "string option"
  end' :: "string option"
  duration' :: "nat option"
  testsRegistered :: "nat option"
  passPercent :: "rat option"
  pendingPercent :: "rat option"
  other :: "nat option"
  hasOther :: "bool option"
  skipped :: "nat option"
  hasSkipped :: "bool option"

record report =
  stats :: "stats option"
  results :: "suite list option"
  meta :: "json option"

text \<open>Step 3: the candidates, in the order in which \<open>processSuite\<close> pushes them.\<close>

definition isCandidate :: "test \<Rightarrow> bool" where
  "isCandidate t = ((fail t \<or> state t = Some ''failed'') \<and> ai t = None)"

fun processSuite :: "suite \<Rightarrow> test list" where
  "processSuite (Suite ti f ff ts ss) = filter isCandidate ts @ concat (map processSuite ss)"

definition candidates :: "suite list \<Rightarrow> test list" where
  "candidates rs = concat (map processSuite rs)"

text \<open>
  Step 4, for one candidate: the insight of \<open>getAiInsight\<close>, or the fallback where it
  throws.
\<close>

definition enrich :: "'w provider \<Rightarrow> string option \<Rightarrow> test \<Rightarrow> 'w net \<Rightarrow> test \<times> 'w net" where
  "enrich prov client t n =
     (case getAiInsight prov client t n of
        (Inr insight, n') \<Rightarrow> (t\<lparr>ai := Some insight\<rparr>, n')
      | (Inl e, n') \<Rightarrow> (t\<lparr>ai := Some (getFallbackInsight t)\<rparr>, n'))"

text \<open>
  The candidates are references into the report, and the loop of step 4 assigns
  \<open>test.ai\<close> through them in the order of step 3. The model walks the tree in that order
  and rebuilds it: a test that is a candidate is replaced by its enriched version, every
  other test is kept.
\<close>

fun enrichTests ::
  "'w provider \<Rightarrow> string option \<Rightarrow> test list \<Rightarrow> 'w net \<Rightarrow> test list \<times> 'w net" where
  "enrichTests prov client [] n = ([], n)"
| "enrichTests prov client (t # ts) n =
     (if isCandidate t then
        (case enrich prov client t n of
           (t', n1) \<Rightarrow>
             (case enrichTests prov client ts n1 of (ts', n2) \<Rightarrow> (t' # ts', n2)))
      else (case enrichTests prov client ts n of (ts', n2) \<Rightarrow> (t # ts', n2)))"

fun enrichSuite ::
  "'w provider \<Rightarrow> string option \<Rightarrow> suite \<Rightarrow> 'w net \<Rightarrow> suite \<times> 'w net"
and enrichSuites ::
  "'w provider \<Rightarrow> string option \<Rightarrow> suite list \<Rightarrow> 'w net \<Rightarrow> suite list \<times> 'w net" where
  "enrichSuite prov client (Suite ti f ff ts ss) n =
     (case enrichTests prov client ts n of
        (ts', n1) \<Rightarrow>
          (case enrichSuites prov client ss n1 of
             (ss', n2) \<Rightarrow> (Suite ti f ff ts' ss', n2)))"
| "enrichSuites prov client [] n = ([], n)"
| "enrichSuites prov client (s # ss) n =
     (case enrichSuite prov client s n of
        (s', n1) \<Rightarrow>
          (case enrichSuites prov client ss n1 of (ss', n2) \<Rightarrow> (s' # ss', n2)))"

text \<open>
  Steps 2 to 5 for one report file, given what \<open>readJson\<close> returned: the report the file
  holds afterwards and the network state. A report without \<open>results\<close> is skipped, one
  without candidates is not written; otherwise the enriched report is written back
  (\<open>JSON.stringify\<close> and \<open>JSON.parse\<close> are inverse on the values of this model).
\<close>

definition processReport ::
  "'w provider \<Rightarrow> string option \<Rightarrow> report \<Rightarrow> 'w net \<Rightarrow> report \<times> 'w net" where
  "processReport prov client rep n =
     (case results rep of
        None \<Rightarrow> (rep, n)
      | Some rs \<Rightarrow>
          (if candidates rs = [] then (rep, n)
           else (case enrichSuites prov client rs n of
                   (rs', n') \<Rightarrow> (rep\<lparr>results := Some rs'\<rparr>, n'))))"

section \<open>enrichResults.js: renaming the report files\<close>

text \<open>
  The reports folder: a file name is mapped to what \<open>JSON.parse\<close> makes of the file
  (\<open>None\<close> where reading or parsing throws or the value is \<open>null\<close>, so that reading
  \<open>data.results\<close> throws; the \<open>catch\<close> only logs that), and a name without a file to
  \<open>None\<close>.
\<close>

type_synonym folder = "string \<Rightarrow> report option option"

text \<open>\<open>path.basename(p)\<close> for a POSIX path.\<close>

definition basename :: "string \<Rightarrow> string" where
  "basename p =
     rev (takeWhile (\<lambda>c. c \<noteq> CHR ''/'') (dropWhile (\<lambda>c. c = CHR ''/'') (rev p)))"

text \<open>\<open>s.replace(/\.cy\.js$|\.js$/, '')\<close>.\<close>

definition stripJsSuffix :: "string \<Rightarrow> string" where
  "stripJsSuffix s =
     (if endsWith s ''.cy.js'' then take (length s - 6) s
      else if endsWith s ''.js'' then take (length s - 3) s
      else s)"

text \<open>\<open>s.replace(/[^a-z0-9]/gi, '_').toLowerCase()\<close>.\<close>

definition isAlnum :: "char \<Rightarrow> bool" where
  "isAlnum c =
     (let n = (of_char c :: nat)
      in (48 \<le> n \<and> n \<le> 57) \<or> (65 \<le> n \<and> n \<le> 90) \<or> (97 \<le> n \<and> n \<le> 122))"

definition sanitizeName :: "string \<Rightarrow> string" where
  "sanitizeName s = toLowerCase (map (\<lambda>c. if isAlnum c then c else CHR ''_'') s)"

text \<open>The spec name of a report: from the file of its first result, or from its title.\<close>

definition specName :: "report \<Rightarrow> string" where
  "specName data =
     (let first = (case results data of Some (r # rs) \<Rightarrow> Some r | _ \<Rightarrow> None);
          specFile = strOr (case first of None \<Rightarrow> None | Some r \<Rightarrow> file' r)
                       (strOr (case first of None \<Rightarrow> None | Some r \<Rightarrow> fullFile r) (Some []))
      in sanitizeName
          (if strTruthy specFile
           then (case specFile of None \<Rightarrow> [] | Some f \<Rightarrow> stripJsSuffix (basename f))
           else (case strOr (case first of None \<Rightarrow> None | Some r \<Rightarrow> suiteTitle r)
                        (Some ''unknown'') of
                   None \<Rightarrow> [] | Some ti \<Rightarrow> ti)))"

definition newPath :: "report \<Rightarrow> string" where
  "newPath data = specName data @ ''_results.json''"

definition isGeneric :: "string \<Rightarrow> bool" where
  "isGeneric fileName = (startsWith fileName ''results_'' \<or> fileName = ''results.json'')"

text \<open>\<open>fs.renameSync(f, p)\<close>: the file gets the new name, replacing what had it.\<close>

definition renameSync :: "folder \<Rightarrow> string \<Rightarrow> string \<Rightarrow> folder" where
  "renameSync dir f p = (dir(f := None))(p := dir f)"

text \<open>The body of the loop over \<open>rawFiles\<close> for the file named \<open>f\<close>, and the loop.\<close>

definition renameOne :: "folder \<Rightarrow> string \<Rightarrow> folder" where
  "renameOne dir f =
     (if isGeneric f then
        (case dir f of
           Some (Some data) \<Rightarrow>
             (if f \<noteq> newPath data \<and> dir (newPath data) = None
              then renameSync dir f (newPath data)
              else dir)
         | _ \<Rightarrow> dir)
      else dir)"

definition renameStep :: "folder \<Rightarrow> string list \<Rightarrow> folder" where
  "renameStep dir rawFiles = foldl renameOne dir rawFiles"

section \<open>renderHtmlReport.js: getResults\<close>

definition or0 :: "nat option \<Rightarrow> nat" where
  "or0 x = (case x of None \<Rightarrow> 0 | Some n \<Rightarrow> n)"

text \<open>The initial \<open>master.stats\<close>; the two time stamps are parameters.\<close>

definition masterStats :: "string \<Rightarrow> string \<Rightarrow> stats" where
  "masterStats now1 now2 =
     \<lparr> suites = Some 0, tests = Some 0, passes = Some 0, pending = Some 0,
       failures = Some 0, start = Some now1, end' = Some now2, duration' = Some 0,
       testsRegistered = Some 0, passPercent = Some 0, pendingPercent = Some 0,
       other = Some 0, hasOther = Some False, skipped = Some 0, hasSkipped = Some False \<rparr>"

text \<open>\<open>master.stats.x += data.stats.x || 0\<close> for the eight counters.\<close>

definition addStats :: "stats \<Rightarrow> stats \<Rightarrow> stats" where
  "addStats m d =
     m\<lparr> suites := Some (or0 (suites m) + or0 (suites d)),
        tests := Some (or0 (tests m) + or0 (tests d)),
        passes := Some (or0 (passes m) + or0 (passes d)),
        pending := Some (or0 (pending m) + or0 (pending d)),
        failures := Some (or0 (failures m) + or0 (failures d)),
        duration' := Some (or0 (duration' m) + or0 (duration' d)),
        testsRegistered := Some (or0 (testsRegistered m) + or0 (testsRegistered d)),
        skipped := Some (or0 (skipped m) + or0 (skipped d)) \<rparr>"

text \<open>
  The body of \<open>files.forEach\<close> for one file (\<open>None\<close>: \<open>JSON.parse\<close> throws). Reading a
  counter of a \<open>stats\<close> that is undefined throws a TypeError.
\<close>

definition mergeFragment :: "report \<Rightarrow> report option \<Rightarrow> js_error + report" where
  "mergeFragment master f =
     (case f of
        None \<Rightarrow> Inl SyntaxError
      | Some data \<Rightarrow>
          (case (stats master, stats data) of
             (Some ms, Some ds) \<Rightarrow>
               Inr (master\<lparr>
                 stats := Some (addStats ms ds),
                 results := (case results data of
                               None \<Rightarrow> results master
                             | Some rs \<Rightarrow>
                                 Some ((case results master of None \<Rightarrow> [] | Some m \<Rightarrow> m) @ rs)),
                 meta := meta data \<rparr>)
           | _ \<Rightarrow> Inl TypeError))"

fun mergeAll :: "report \<Rightarrow> report option list \<Rightarrow> js_error + report" where
  "mergeAll master [] = Inr master"
| "mergeAll master (f # fs) =
     (case mergeFragment master f of
        Inl e \<Rightarrow> Inl e
      | Inr m \<Rightarrow> mergeAll m fs)"

text \<open>The percentages, recalculated when \<open>testsRegistered > 0\<close>.\<close>

definition recalculate :: "stats \<Rightarrow> stats" where
  "recalculate ms =
     (if 0 < or0 (testsRegistered ms)
      then ms\<lparr> passPercent :=
                  Some (of_nat (or0 (passes ms)) / of_nat (or0 (testsRegistered ms)) * 100),
               pendingPercent :=
                  Some (of_nat (or0 (pending ms)) / of_nat (or0 (testsRegistered ms)) * 100) \<rparr>
      else ms)"

text \<open>
  \<open>getResults()\<close>, given the parsed files of the glob and the two fallback files
  (\<open>None\<close>: the file does not exist). The result is the report, \<open>null\<close>, or what was
  thrown.
\<close>

definition readFallback :: "report option \<Rightarrow> js_error + report option" where
  "readFallback c = (case c of None \<Rightarrow> Inl SyntaxError | Some r \<Rightarrow> Inr (Some r))"

definition getResults ::
  "string \<Rightarrow> string \<Rightarrow> report option list \<Rightarrow> report option option \<Rightarrow> report option option
     \<Rightarrow> js_error + report option" where
  "getResults now1 now2 files resultsFile baseResultsFile =
     (if files = [] then
        (case resultsFile of
           Some c \<Rightarrow> readFallback c
         | None \<Rightarrow> (case baseResultsFile of Some c \<Rightarrow> readFallback c | None \<Rightarrow> Inr None))
      else
        (case mergeAll \<lparr> stats = Some (masterStats now1 now2), results = Some [],
                         meta = Some (JObj []) \<rparr> files of
           Inl e \<Rightarrow> Inl e
         | Inr m \<Rightarrow> Inr (Some (m\<lparr>stats := map_option recalculate (stats m)\<rparr>))))"

text \<open>
  The field-wise sum of a counter over the fragments, as the specification words it: a
  fragment that has no such counter adds nothing.
\<close>

definition counterOf :: "(stats \<Rightarrow> nat option) \<Rightarrow> report option \<Rightarrow> nat" where
  "counterOf sel f =
     (case f of
        None \<Rightarrow> 0
      | Some data \<Rightarrow> (case stats data of None \<Rightarrow> 0 | Some ds \<Rightarrow> or0 (sel ds)))"

definition sumOf :: "(stats \<Rightarrow> nat option) \<Rightarrow> report option list \<Rightarrow> nat" where
  "sumOf sel files = sum_list (map (counterOf sel) files)"

definition hasStats :: "report option \<Rightarrow> bool" where
  "hasStats f = (case f of None \<Rightarrow> False | Some data \<Rightarrow> stats data \<noteq> None)"

text \<open>A \<open>stats\<close> object without any field, to build examples from.\<close>

definition noStats :: stats where
  "noStats =
     \<lparr> suites = None, tests = None, passes = None, pending = None, failures = None,
       start = None, end' = None, duration' = None, testsRegistered = None,
       passPercent = None, pendingPercent = None, other = None, hasOther = None,
       skipped = None, hasSkipped = None \<rparr>"

section \<open>Notions of the specification\<close>



definition stringOrFalsy :: "json option \<Rightarrow> bool" where
  "stringOrFalsy x =
     (case x of None \<Rightarrow> True | Some (JStr s) \<Rightarrow> True | Some v \<Rightarrow> \<not> truthy v)"

definition stringOrNullish :: "json option \<Rightarrow> bool" where
  "stringOrNullish x =
     (case x of None \<Rightarrow> True | Some JNull \<Rightarrow> True | Some (JStr s) \<Rightarrow> True
      | Some v \<Rightarrow> False)"

definition wellTyped :: "json \<Rightarrow> bool" where
  "wellTyped data =
     (stringOrFalsy (getProp data ''summary'')
      \<and> stringOrFalsy (getProp data ''recommendation'')
      \<and> stringOrNullish (getProp data ''severity''))"

text \<open>
  The replies that the provider would give if the models of a list were asked one after
  the other, each request leaving the provider in the state the next one finds. The
  Inference Invoker asks them in this order until an attempt succeeds.
\<close>

fun repliesInTurn :: "'w provider \<Rightarrow> prompt \<Rightarrow> string list \<Rightarrow> 'w \<Rightarrow> reply list" where
  "repliesInTurn prov p [] w = []"
| "repliesInTurn prov p (m # ms) w =
     (case prov w m p of (r, w') \<Rightarrow> r # repliesInTurn prov p ms w')"

text \<open>
  A folder has settled targets when every parsed file with a generic name that sits at
  the destination of some parsed file of the folder has that name as its own destination.
\<close>

definition settledTargets :: "folder \<Rightarrow> bool" where
  "settledTargets dir =
     (\<forall>f data g dg.
        dir f = Some (Some data) \<and> newPath data = g \<and> isGeneric g \<and> dir g = Some (Some dg)
        \<longrightarrow> newPath dg = g)"

section \<open>Example inputs\<close>

text \<open>
  The failing test of the specification's scenario, a failing test whose texts hold none
  of the keywords of \<open>deriveTags\<close>, a network on which nothing was sent yet, and three
  providers: one that rejects every request, one that always answers with an empty JSON
  object, and one that rejects the first request and answers the later ones.
\<close>

definition loginTest :: test where
  "loginTest =
     \<lparr> title = Some ''[auth] login redirects'', fullTitle = None, fail = True,
       state = Some ''failed'',
       err = Some \<lparr> message = Some ''Timed out retrying after 4000ms'', stack = None,
                     estack = None \<rparr>,
       code = None, duration = Some 4000, ai = None \<rparr>"

definition plainTest :: test where
  "plainTest =
     \<lparr> title = Some ''adds an item'', fullTitle = None, fail = True,
       state = Some ''failed'',
       err = Some \<lparr> message = Some ''boom'', stack = None, estack = None \<rparr>,
       code = None, duration = Some 12, ai = None \<rparr>"

definition idle :: "nat net" where
  "idle = \<lparr> world = 0, sent = [], slept = 0 \<rparr>"

definition deadProvider :: "nat provider" where
  "deadProvider w model p = (Rejected, Suc w)"

definition steadyProvider :: "nat provider" where
  "steadyProvider w model p = (Resolved (Some ''{}''), Suc w)"

definition flakyProvider :: "nat provider" where
  "flakyProvider w model p =
     (if w = 0 then (Rejected, Suc w) else (Resolved (Some ''{}''), Suc w))"

text \<open>
  A report with one passed test at the root suite and the scenario's failing test in a
  nested suite.
\<close>

definition exampleSuite :: suite where
  "exampleSuite =
     Suite (Some ''Auth'') (Some ''cypress/e2e/auth.cy.js'') None
       [plainTest\<lparr>fail := False, state := Some ''passed''\<rparr>]
       [Suite (Some ''Login'') None None [loginTest] []]"

definition exampleReport :: report where
  "exampleReport = \<lparr> stats = None, results = Some [exampleSuite], meta = None \<rparr>"

text \<open>
  Fragments of the specs \<open>login.cy.js\<close>, \<open>results_foo.cy.js\<close> and \<open>bar.cy.js\<close>, a
  folder with two fragments of the first spec under generic names, and a folder in which
  a fragment with a generic name has the destination name of another one.
\<close>

definition fragmentOf :: "string \<Rightarrow> report" where
  "fragmentOf specFile =
     \<lparr> stats = None, results = Some [Suite (Some ''suite'') (Some specFile) None [] []],
       meta = None \<rparr>"

definition shardFolder :: folder where
  "shardFolder =
     [''results_001.json'' \<mapsto> Some (fragmentOf ''cypress/e2e/login.cy.js''),
      ''results_002.json'' \<mapsto> Some (fragmentOf ''cypress/e2e/login.cy.js'')]"

definition clashFolder :: folder where
  "clashFolder =
     [''results_1.json'' \<mapsto> Some (fragmentOf ''cypress/e2e/results_foo.cy.js''),
      ''results_foo_results.json'' \<mapsto> Some (fragmentOf ''cypress/e2e/bar.cy.js'')]"

section \<open>Facts about the validator\<close>

lemma cleanText_error: "cleanText x = Inl e \<Longrightarrow> e = TypeError"
  by (auto simp: cleanText_def split: json.splits)

lemma severityOf_error: "severityOf x = Inl e \<Longrightarrow> e = TypeError"
  by (auto simp: severityOf_def split: option.splits json.splits)

lemma sanitize_error: "sanitize data t = Inl e \<Longrightarrow> e = TypeError"
  by (auto simp: sanitize_def split: if_splits sum.splits
      dest: cleanText_error severityOf_error)

lemma sanitize_confidence:
  "sanitize data t = Inr ins \<Longrightarrow> confidence ins = confidenceOf (getProp data ''confidence'')"
  by (auto simp: sanitize_def insightOf_def split: if_splits sum.splits)

lemma sanitize_severity:
  "sanitize data t = Inr ins \<Longrightarrow> severityOf (getProp data ''severity'') = Inr (severity ins)"
  by (auto simp: sanitize_def insightOf_def split: if_splits sum.splits)


lemma confidenceOf_range: "0 \<le> confidenceOf c \<and> confidenceOf c \<le> 1"
  by (auto simp: confidenceOf_def split: option.splits json.splits)

lemma cleanText_returns: "(\<exists>s. cleanText x = Inr s) = stringOrFalsy x"
  by (cases x; auto simp: cleanText_def stringOrFalsy_def orElse_def split: json.splits)

lemma severityOf_returns: "(\<exists>s. severityOf x = Inr s) = stringOrNullish x"
  by (auto simp: severityOf_def stringOrNullish_def split: option.splits json.splits)


lemma orElse_truthy: "truthy d \<Longrightarrow> truthy (orElse x d)"
  by (simp add: orElse_def split: option.splits)





lemma sanitize_wellTyped: "sanitize data t = Inr ins \<Longrightarrow> wellTyped data"
  unfolding wellTyped_def cleanText_returns [symmetric] severityOf_returns [symmetric]
  by (auto simp: sanitize_def split: if_splits sum.splits)













text \<open>
  A number literal of magnitude below half the least positive double reads as zero,
  which is falsy: as a summary it is replaced by the default.
\<close>

lemma underflow_is_falsy:
  \<open>JSON_parse (extractJson ''{"summary": 1e-324}'') = Some (JObj [(''summary'', JNum 0)])
   \<and> (case validateAndSanitize ''{"summary": 1e-324}'' plainTest of
         Inr ins \<Rightarrow> summary ins = ''Investigate failure reason.''
       | Inl e \<Rightarrow> False)\<close>
  by code_simp

lemma matchBraces_wrapped:
  assumes "CHR ''{'' \<notin> set pre" and "CHR ''}'' \<notin> set post"
  shows "matchBraces (pre @ CHR ''{'' # mid @ CHR ''}'' # post) = Some (CHR ''{'' # mid @ [CHR ''}''])"
proof -
  have d: "dropWhile (\<lambda>c. c \<noteq> CHR ''{'') (pre @ CHR ''{'' # mid @ CHR ''}'' # post)
      = CHR ''{'' # mid @ CHR ''}'' # post"
    using assms(1) by (subst dropWhile_append2) auto
  have r: "rev (CHR ''{'' # mid @ CHR ''}'' # post) = rev post @ CHR ''}'' # rev (CHR ''{'' # mid)"
    by simp
  have "dropWhile (\<lambda>c. c \<noteq> CHR ''}'') (rev (CHR ''{'' # mid @ CHR ''}'' # post))
      = CHR ''}'' # rev (CHR ''{'' # mid)"
    unfolding r using assms(2) by (subst dropWhile_append2) auto
  then show ?thesis
    unfolding matchBraces_def Let_def d by simp
qed

lemma matchBraces_none:
  assumes "CHR ''}'' \<notin> set rawJson"
  shows "matchBraces rawJson = None"
  using assms set_dropWhileD [of "CHR ''}''" "\<lambda>c. c \<noteq> CHR ''{''" rawJson]
  by (auto simp: matchBraces_def Let_def)

section \<open>Facts about the invoker\<close>

lemma enrich_fallback:
  "fst (getAiInsight prov client t n) = Inl e \<Longrightarrow>
   ai (fst (enrich prov client t n)) = Some (getFallbackInsight t)"
  by (cases "getAiInsight prov client t n") (simp add: enrich_def)

lemma attempt_stamps: "attempt r t m = Inr ins \<Longrightarrow> modelUsed ins = Some m"
  by (auto simp: attempt_def split: reply.splits option.splits if_splits sum.splits)

lemma chatCompletion_effect:
  "chatCompletion prov m p n = (r, n') \<Longrightarrow>
   prov (world n) m p = (r, world n') \<and> sent n' = sent n @ [(m, p)]"
  by (auto simp: chatCompletion_def split: prod.splits)

lemma sleep_effect: "world (sleep ms n) = world n \<and> sent (sleep ms n) = sent n"
  by (simp add: sleep_def)

lemma tryModels_spec:
  "case tryModels prov t p ms n of
     (Inr ins, n') \<Rightarrow>
       (\<exists>k < length ms.
          (\<forall>j < k. isl (attempt (repliesInTurn prov p ms (world n) ! j) t (ms ! j)))
          \<and> attempt (repliesInTurn prov p ms (world n) ! k) t (ms ! k) = Inr ins
          \<and> sent n' = sent n @ map (\<lambda>m. (m, p)) (take (Suc k) ms))
   | (Inl e, n') \<Rightarrow>
       e = AllModelsFailed
       \<and> (\<forall>j < length ms. isl (attempt (repliesInTurn prov p ms (world n) ! j) t (ms ! j)))
       \<and> sent n' = sent n @ map (\<lambda>m. (m, p)) ms"
proof (induction ms arbitrary: n)
  case Nil
  show ?case by simp
next
  case (Cons m ms)
  define n0 where "n0 = (if m \<noteq> hd CONFIG_models then sleep 2000 n else n)"
  obtain r n1 where cc: "chatCompletion prov m p n0 = (r, n1)"
    by (cases "chatCompletion prov m p n0")
  have w0: "world n0 = world n" and s0: "sent n0 = sent n"
    by (simp_all add: n0_def sleep_effect)
  from chatCompletion_effect [OF cc] w0 s0
  have pr: "prov (world n) m p = (r, world n1)" and s1: "sent n1 = sent n @ [(m, p)]"
    by simp_all
  have rs: "repliesInTurn prov p (m # ms) (world n) = r # repliesInTurn prov p ms (world n1)"
    by (simp add: pr)
  show ?case
  proof (cases "attempt r t m")
    case (Inr ins)
    then have "tryModels prov t p (m # ms) n = (Inr ins, n1)"
      using cc by (simp add: n0_def)
    moreover have "attempt ((r # repliesInTurn prov p ms (world n1)) ! 0) t ((m # ms) ! 0) = Inr ins"
      using Inr by simp
    ultimately show ?thesis
      unfolding rs using s1 by (auto intro!: exI [of _ 0])
  next
    case (Inl e)
    then have step: "tryModels prov t p (m # ms) n = tryModels prov t p ms n1"
      using cc by (simp add: n0_def)
    obtain res n2 where res: "tryModels prov t p ms n1 = (res, n2)"
      by (cases "tryModels prov t p ms n1")
    show ?thesis
    proof (cases res)
      case fail: (Inl e')
      from Cons.IH [of n1] res fail
      have e': "e' = AllModelsFailed"
        and all: "\<forall>j < length ms. isl (attempt (repliesInTurn prov p ms (world n1) ! j) t (ms ! j))"
        and s2: "sent n2 = sent n1 @ map (\<lambda>m. (m, p)) ms"
        by simp_all
      have "\<forall>j < length (m # ms).
              isl (attempt ((r # repliesInTurn prov p ms (world n1)) ! j) t ((m # ms) ! j))"
        using all Inl by (auto simp: nth_Cons split: nat.splits)
      then show ?thesis
        unfolding rs step res fail using e' s1 s2 by simp
    next
      case ok: (Inr ins)
      from Cons.IH [of n1] res ok obtain k where
        k: "k < length ms"
        and before: "\<forall>j < k. isl (attempt (repliesInTurn prov p ms (world n1) ! j) t (ms ! j))"
        and at: "attempt (repliesInTurn prov p ms (world n1) ! k) t (ms ! k) = Inr ins"
        and s2: "sent n2 = sent n1 @ map (\<lambda>m. (m, p)) (take (Suc k) ms)"
        by auto
      have "\<forall>j < Suc k.
              isl (attempt ((r # repliesInTurn prov p ms (world n1)) ! j) t ((m # ms) ! j))"
        using before Inl by (auto simp: nth_Cons split: nat.splits)
      moreover have "attempt ((r # repliesInTurn prov p ms (world n1)) ! Suc k) t ((m # ms) ! Suc k)
          = Inr ins"
        using at by simp
      moreover have "sent n2 = sent n @ map (\<lambda>m. (m, p)) (take (Suc (Suc k)) (m # ms))"
        using s1 s2 by simp
      moreover have "Suc k < length (m # ms)"
        using k by simp
      ultimately show ?thesis
        unfolding rs step res ok by (auto intro!: exI [of _ "Suc k"])
    qed
  qed
qed

lemma deriveTags_timing:
  assumes "includesStr (toLowerCase (toStr m @ '' '' @ toStr ti)) ''timeout''
         \<or> includesStr (toLowerCase (toStr m @ '' '' @ toStr ti)) ''waited''"
  shows "''timing'' \<in> set (deriveTags m ti)"
proof -
  from assms have c:
    "(includesStr (toLowerCase (toStr m @ '' '' @ toStr ti)) ''timeout''
       \<or> includesStr (toLowerCase (toStr m @ '' '' @ toStr ti)) ''waited'') = True"
    by simp
  show ?thesis
    unfolding deriveTags_def Let_def c
    by (simp split del: if_split)
qed

lemma fallback_timing:
  assumes "includesStr (toLowerCase ((case errMessage t of None \<Rightarrow> [] | Some m \<Rightarrow> m)
              @ '' '' @ toStr (title t))) ''timeout''
         \<or> includesStr (toLowerCase ((case errMessage t of None \<Rightarrow> [] | Some m \<Rightarrow> m)
              @ '' '' @ toStr (title t))) ''waited''"
  shows "JStr ''timing'' \<in> set (tags (getFallbackInsight t))"
proof -
  have "''timing'' \<in> set (deriveTags (Some (case errMessage t of None \<Rightarrow> [] | Some m \<Rightarrow> m)) (title t))"
    using assms by (intro deriveTags_timing) (simp add: toStr_def)
  then show ?thesis
    by (simp add: getFallbackInsight_def Let_def)
qed

section \<open>Facts about the merger\<close>

lemma sumOf_Cons: "sumOf sel (f # files) = counterOf sel f + sumOf sel files"
  by (simp add: sumOf_def)

lemma sumOf_Nil: "sumOf sel [] = 0"
  by (simp add: sumOf_def)

lemma mergeFragment_ok:
  assumes "stats master = Some ms" and "stats data = Some ds"
  shows "\<exists>m. mergeFragment master (Some data) = Inr m \<and> stats m = Some (addStats ms ds)"
  using assms by (simp add: mergeFragment_def)

lemma addStats_fields:
  "suites (addStats m d) = Some (or0 (suites m) + or0 (suites d))"
  "tests (addStats m d) = Some (or0 (tests m) + or0 (tests d))"
  "passes (addStats m d) = Some (or0 (passes m) + or0 (passes d))"
  "pending (addStats m d) = Some (or0 (pending m) + or0 (pending d))"
  "failures (addStats m d) = Some (or0 (failures m) + or0 (failures d))"
  "duration' (addStats m d) = Some (or0 (duration' m) + or0 (duration' d))"
  "testsRegistered (addStats m d) = Some (or0 (testsRegistered m) + or0 (testsRegistered d))"
  "skipped (addStats m d) = Some (or0 (skipped m) + or0 (skipped d))"
  "passPercent (addStats m d) = passPercent m"
  "pendingPercent (addStats m d) = pendingPercent m"
  by (simp_all add: addStats_def)

lemma mergeAll_sums:
  assumes "\<forall>f \<in> set files. hasStats f" and "stats master = Some ms"
    and "suites ms = Some a1" and "tests ms = Some a2" and "passes ms = Some a3"
    and "pending ms = Some a4" and "failures ms = Some a5" and "duration' ms = Some a6"
    and "testsRegistered ms = Some a7" and "skipped ms = Some a8"
  shows "\<exists>m ms'. mergeAll master files = Inr m \<and> stats m = Some ms'
    \<and> suites ms' = Some (a1 + sumOf suites files)
    \<and> tests ms' = Some (a2 + sumOf tests files)
    \<and> passes ms' = Some (a3 + sumOf passes files)
    \<and> pending ms' = Some (a4 + sumOf pending files)
    \<and> failures ms' = Some (a5 + sumOf failures files)
    \<and> duration' ms' = Some (a6 + sumOf duration' files)
    \<and> testsRegistered ms' = Some (a7 + sumOf testsRegistered files)
    \<and> skipped ms' = Some (a8 + sumOf skipped files)
    \<and> passPercent ms' = passPercent ms \<and> pendingPercent ms' = pendingPercent ms"
  using assms
proof (induction files arbitrary: master ms a1 a2 a3 a4 a5 a6 a7 a8)
  case Nil
  then show ?case by (simp add: sumOf_Nil)
next
  case (Cons f files)
  from Cons.prems(1) obtain data ds where f: "f = Some data" and ds: "stats data = Some ds"
    by (auto simp: hasStats_def split: option.splits)
  from mergeFragment_ok [OF Cons.prems(2) ds] obtain m1 where
    m1: "mergeFragment master (Some data) = Inr m1" and s1: "stats m1 = Some (addStats ms ds)"
    by blast
  have rest: "\<forall>f \<in> set files. hasStats f"
    using Cons.prems(1) by simp
  have c: "counterOf sel (Some data) = or0 (sel ds)" for sel
    by (simp add: counterOf_def ds)
  from Cons.IH [OF rest s1, of "a1 + or0 (suites ds)" "a2 + or0 (tests ds)"
      "a3 + or0 (passes ds)" "a4 + or0 (pending ds)" "a5 + or0 (failures ds)"
      "a6 + or0 (duration' ds)" "a7 + or0 (testsRegistered ds)" "a8 + or0 (skipped ds)"]
    Cons.prems(3-)
  obtain m ms' where
    "mergeAll m1 files = Inr m" "stats m = Some ms'"
    "suites ms' = Some (a1 + or0 (suites ds) + sumOf suites files)"
    "tests ms' = Some (a2 + or0 (tests ds) + sumOf tests files)"
    "passes ms' = Some (a3 + or0 (passes ds) + sumOf passes files)"
    "pending ms' = Some (a4 + or0 (pending ds) + sumOf pending files)"
    "failures ms' = Some (a5 + or0 (failures ds) + sumOf failures files)"
    "duration' ms' = Some (a6 + or0 (duration' ds) + sumOf duration' files)"
    "testsRegistered ms' = Some (a7 + or0 (testsRegistered ds) + sumOf testsRegistered files)"
    "skipped ms' = Some (a8 + or0 (skipped ds) + sumOf skipped files)"
    "passPercent ms' = passPercent ms" "pendingPercent ms' = pendingPercent ms"
    by (auto simp: addStats_fields or0_def)
  then show ?case
    using m1 by (simp add: f sumOf_Cons c add.assoc)
qed

section \<open>Facts about the pipeline\<close>

text \<open>
  The walk over the tree settles every candidate, and it calls \<open>enrich\<close> for exactly
  the candidates of step 3, in their order.
\<close>

lemma enrich_not_candidate: "\<not> isCandidate (fst (enrich prov client t n))"
  by (cases "getAiInsight prov client t n")
     (auto simp: enrich_def isCandidate_def split: sum.splits)

lemma enrichTests_settled:
  "filter isCandidate (fst (enrichTests prov client ts n)) = []"
  by (induction ts arbitrary: n) (simp_all add: split_beta enrich_not_candidate)

lemma enrichSuite_settled:
  "processSuite (fst (enrichSuite prov client s n)) = []"
  "candidates (fst (enrichSuites prov client ss n)) = []"
proof (induction prov client s n and prov client ss n rule: enrichSuite_enrichSuites.induct)
  case (1 prov client ti f ff ts ss n)
  obtain ts' n1 where t: "enrichTests prov client ts n = (ts', n1)"
    by (cases "enrichTests prov client ts n")
  have "filter isCandidate ts' = []"
    using enrichTests_settled [of prov client ts n] t by simp
  moreover have "candidates (fst (enrichSuites prov client ss n1)) = []"
    using "1.IH" [OF t [symmetric]] .
  ultimately show ?case
    using t by (simp add: candidates_def split_beta)
next
  case (2 prov client n)
  show ?case by (simp add: candidates_def)
next
  case (3 prov client s ss n)
  obtain s' n1 where a: "enrichSuite prov client s n = (s', n1)"
    by (cases "enrichSuite prov client s n")
  have "processSuite s' = []"
    using "3.IH"(1) a by simp
  moreover have "candidates (fst (enrichSuites prov client ss n1)) = []"
    using "3.IH"(2) [OF a [symmetric]] .
  ultimately show ?case
    using a by (simp add: candidates_def split_beta)
qed

lemma processSuite_candidates: "t \<in> set (processSuite s) \<Longrightarrow> isCandidate t"
  by (induction s arbitrary: t rule: processSuite.induct) auto

lemma candidates_are_candidates: "t \<in> set (candidates rs) \<Longrightarrow> isCandidate t"
  by (auto simp: candidates_def dest: processSuite_candidates)

lemma enrichTests_order:
  "snd (enrichTests prov client ts n)
     = foldl (\<lambda>n t. snd (enrich prov client t n)) n (filter isCandidate ts)"
  by (induction ts arbitrary: n) (simp_all add: split_beta)

lemma enrichSuite_order:
  "snd (enrichSuite prov client s n)
     = foldl (\<lambda>n t. snd (enrich prov client t n)) n (processSuite s)"
  "snd (enrichSuites prov client ss n)
     = foldl (\<lambda>n t. snd (enrich prov client t n)) n (candidates ss)"
proof (induction prov client s n and prov client ss n rule: enrichSuite_enrichSuites.induct)
  case (1 prov client ti f ff ts ss n)
  obtain ts' n1 where t: "enrichTests prov client ts n = (ts', n1)"
    by (cases "enrichTests prov client ts n")
  have n1: "n1 = foldl (\<lambda>n t. snd (enrich prov client t n)) n (filter isCandidate ts)"
    using enrichTests_order [of prov client ts n] t by simp
  show ?case
    using "1.IH" [OF t [symmetric]] t n1
    by (simp add: candidates_def split_beta)
next
  case (2 prov client n)
  show ?case by (simp add: candidates_def)
next
  case (3 prov client s ss n)
  obtain s' n1 where a: "enrichSuite prov client s n = (s', n1)"
    by (cases "enrichSuite prov client s n")
  show ?case
    using "3.IH"(1) "3.IH"(2) [OF a [symmetric]] a
    by (simp add: candidates_def split_beta)
qed

section \<open>Facts about the renaming\<close>

text \<open>
  A step of the loop either leaves the folder as it is or moves one file to a free name.
  A file that a step leaves alone stays so after the steps for other files, as long as
  the targets are settled, and that property is kept by every step.
\<close>

lemma renameOne_cases:
  "renameOne d f = d \<or>
   (\<exists>data. isGeneric f \<and> d f = Some (Some data) \<and> f \<noteq> newPath data
      \<and> d (newPath data) = None
      \<and> renameOne d f = (d(f := None))(newPath data := Some (Some data)))"
  by (auto simp: renameOne_def renameSync_def split: option.splits)

lemma renameOne_stable_iff:
  "renameOne d f = d \<longleftrightarrow>
   (\<not> isGeneric f \<or>
    (\<forall>data. d f = Some (Some data) \<longrightarrow> f = newPath data \<or> d (newPath data) \<noteq> None))"
proof -
  have "(d(f := None))(p := Some (Some data)) \<noteq> d" if "d f = Some (Some data)" "f \<noteq> p"
    for p data
  proof
    assume "(d(f := None))(p := Some (Some data)) = d"
    then have "((d(f := None))(p := Some (Some data))) f = d f"
      by simp
    with that show False
      by simp
  qed
  then show ?thesis
    by (auto simp: renameOne_def renameSync_def split: option.splits)
qed

lemma renameOne_twice: "renameOne (renameOne d f) f = renameOne d f"
proof -
  consider "renameOne d f = d"
    | data where "f \<noteq> newPath data"
        "renameOne d f = (d(f := None))(newPath data := Some (Some data))"
    using renameOne_cases [of d f] by blast
  then show ?thesis
  proof cases
    case 1
    then show ?thesis by simp
  next
    case 2
    then have "renameOne d f f = None"
      by simp
    then show ?thesis
      unfolding renameOne_stable_iff by simp
  qed
qed

lemma renameOne_settledTargets:
  assumes "settledTargets d"
  shows "settledTargets (renameOne d g)"
proof -
  consider "renameOne d g = d"
    | data where "isGeneric g" "d g = Some (Some data)" "g \<noteq> newPath data"
        "d (newPath data) = None"
        "renameOne d g = (d(g := None))(newPath data := Some (Some data))"
    using renameOne_cases [of d g] by blast
  then show ?thesis
  proof cases
    case 1
    with assms show ?thesis by simp
  next
    case 2
    show ?thesis
      unfolding settledTargets_def 2(5)
    proof (intro allI impI, elim conjE)
      fix f x p dp
      assume f: "((d(g := None))(newPath data := Some (Some data))) f = Some (Some x)"
        and p: "newPath x = p" and gen: "isGeneric p"
        and dp: "((d(g := None))(newPath data := Some (Some data))) p = Some (Some dp)"
      show "newPath dp = p"
      proof (cases "p = newPath data")
        case True
        with dp show ?thesis by simp
      next
        case False
        with dp have dp': "d p = Some (Some dp)" and pg: "p \<noteq> g"
          by (auto split: if_splits)
        from f False p have "f \<noteq> newPath data"
          by auto
        with f have "d f = Some (Some x)"
          by (auto split: if_splits)
        with assms p gen dp' show ?thesis
          unfolding settledTargets_def by blast
      qed
    qed
  qed
qed

lemma renameOne_keeps_stable:
  assumes "settledTargets d" and "renameOne d f = d"
  shows "renameOne (renameOne d g) f = renameOne d g"
proof -
  consider "renameOne d g = d"
    | data where "isGeneric g" "d g = Some (Some data)" "g \<noteq> newPath data"
        "d (newPath data) = None"
        "renameOne d g = (d(g := None))(newPath data := Some (Some data))"
    using renameOne_cases [of d g] by blast
  then show ?thesis
  proof cases
    case 1
    with assms(2) show ?thesis by simp
  next
    case 2
    define d' where "d' = (d(g := None))(newPath data := Some (Some data))"
    have "f = newPath x \<or> d' (newPath x) \<noteq> None"
      if gen: "isGeneric f" and fx: "d' f = Some (Some x)" for x
    proof (rule disjCI)
      assume occ: "\<not> d' (newPath x) \<noteq> None"
      show "f = newPath x"
      proof (rule ccontr)
        assume ne: "f \<noteq> newPath x"
        have fT: "f \<noteq> newPath data"
          using fx ne by (auto simp: d'_def)
        with fx have fg: "f \<noteq> g" and dfx: "d f = Some (Some x)"
          by (auto simp: d'_def split: if_splits)
        from assms(2) gen dfx ne have "d (newPath x) \<noteq> None"
          unfolding renameOne_stable_iff by blast
        with occ have "newPath x = g"
          by (auto simp: d'_def split: if_splits)
        with assms(1) dfx 2(1,2) have "newPath data = g"
          unfolding settledTargets_def by blast
        with 2(3) show False
          by simp
      qed
    qed
    then have "renameOne d' f = d'"
      unfolding renameOne_stable_iff by blast
    then show ?thesis
      unfolding 2(5) d'_def .
  qed
qed

lemma renameStep_invariant:
  assumes "settledTargets d" and "\<forall>f \<in> F. renameOne d f = d"
  shows "settledTargets (renameStep d l)
    \<and> (\<forall>f \<in> F \<union> set l. renameOne (renameStep d l) f = renameStep d l)"
  using assms
proof (induction l arbitrary: d F)
  case Nil
  then show ?case by (simp add: renameStep_def)
next
  case (Cons g l)
  have s: "settledTargets (renameOne d g)"
    using Cons.prems(1) by (rule renameOne_settledTargets)
  have "\<forall>f \<in> insert g F. renameOne (renameOne d g) f = renameOne d g"
    using Cons.prems renameOne_twice [of d g]
    by (auto intro: renameOne_keeps_stable)
  from Cons.IH [OF s this] show ?case
    by (simp add: renameStep_def)
qed

lemma renameStep_stable:
  assumes "\<forall>f. renameOne d f = d"
  shows "renameStep d l = d"
  using assms by (induction l) (simp_all add: renameStep_def)

lemma renameOne_card:
  assumes "finite (dom d)"
  shows "finite (dom (renameOne d f)) \<and> card (dom (renameOne d f)) = card (dom d)"
proof -
  consider "renameOne d f = d"
    | data where "d f = Some (Some data)" "f \<noteq> newPath data" "d (newPath data) = None"
        "renameOne d f = (d(f := None))(newPath data := Some (Some data))"
    using renameOne_cases [of d f] by blast
  then show ?thesis
  proof cases
    case 1
    with assms show ?thesis by simp
  next
    case 2
    have dm: "dom (renameOne d f) = insert (newPath data) (dom d - {f})"
      unfolding 2(4) by (auto split: if_splits)
    have "f \<in> dom d" "newPath data \<notin> dom d - {f}"
      using 2 by auto
    then show ?thesis
      unfolding dm using assms
      by (simp add: card_Diff_singleton card_gt_0_iff)
         (metis One_nat_def Suc_pred card_gt_0_iff empty_iff)
  qed
qed

lemma renameStep_card:
  assumes "finite (dom d)"
  shows "finite (dom (renameStep d l)) \<and> card (dom (renameStep d l)) = card (dom d)"
  using assms
proof (induction l arbitrary: d)
  case Nil
  then show ?case by (simp add: renameStep_def)
next
  case (Cons g l)
  from renameOne_card [OF Cons.prems, of g] Cons.IH [of "renameOne d g"]
  show ?case by (simp add: renameStep_def)
qed

lemma shard_facts:
  "newPath (fragmentOf ''cypress/e2e/login.cy.js'') = ''login_results.json''"
  "isGeneric ''results_001.json''" "isGeneric ''results_002.json''"
  "\<not> isGeneric ''login_results.json''"
  by code_simp+

section \<open>The claims\<close>

text \<open>
  Claim C8. Whenever the Insight Validator returns an insight, its confidence lies in the
  interval from 0 to 1: a numeric \<open>confidence\<close> field of the parsed response is clamped
  into that interval, and a field that is absent or not a number gives 0.5.
\<close>

theorem confidence_clamped:
  assumes "validateAndSanitize rawJson t = Inr ins"
  shows "0 \<le> confidence ins \<and> confidence ins \<le> 1 \<and>
         (\<exists>data. JSON_parse (extractJson rawJson) = Some data \<and>
            confidence ins =
              (case getProp data ''confidence'' of
                 Some (JNum x) \<Rightarrow> min (max x 0) 1
               | _ \<Rightarrow> 1 / 2))"
proof -
  from assms obtain data where
    p: "JSON_parse (extractJson rawJson) = Some data" and s: "sanitize data t = Inr ins"
    by (auto simp: validateAndSanitize_def split: option.splits)
  have c: "confidence ins = confidenceOf (getProp data ''confidence'')"
    using s by (rule sanitize_confidence)
  then show ?thesis
    using p confidenceOf_range [of "getProp data ''confidence''"]
    by (auto simp: confidenceOf_def)
qed

text \<open>
  Witness for C8: a response whose confidence is 1.7 is accepted with confidence 1.
\<close>

theorem confidence_clamped_witness:
  \<open>(case validateAndSanitize ''{"confidence": 1.7}'' loginTest of
      Inr ins \<Rightarrow> 0 \<le> confidence ins \<and> confidence ins \<le> 1 \<and> confidence ins = 1
    | Inl e \<Rightarrow> False)\<close>
proof -
  have \<open>(case validateAndSanitize ''{"confidence": 1.7}'' loginTest of
          Inr ins \<Rightarrow> confidence ins = 1 | Inl e \<Rightarrow> False)\<close>
    by code_simp
  then obtain ins where
    r: \<open>validateAndSanitize ''{"confidence": 1.7}'' loginTest = Inr ins\<close> and
    c: "confidence ins = 1"
    by (auto split: sum.splits)
  from confidence_clamped [OF r] c r show ?thesis
    by simp
qed




text \<open>
  Claim C10. For a parsed response whose \<open>severity\<close> field holds a value that is
  neither a string nor null nor absent (a number, a boolean, an array or an object), the
  Insight Validator throws (a TypeError) instead of returning an insight. When it
  returns, the severity is the default \<open>medium\<close> for an absent or null field and for a
  string that is not one of the four levels, and the lower-cased level otherwise.
\<close>

theorem severity_type_error:
  assumes "JSON_parse (extractJson rawJson) = Some data"
  shows "(case getProp data ''severity'' of
            None \<Rightarrow>
              (\<forall>ins. validateAndSanitize rawJson t = Inr ins \<longrightarrow> severity ins = ''medium'')
          | Some JNull \<Rightarrow>
              (\<forall>ins. validateAndSanitize rawJson t = Inr ins \<longrightarrow> severity ins = ''medium'')
          | Some (JStr s) \<Rightarrow>
              (\<forall>ins. validateAndSanitize rawJson t = Inr ins \<longrightarrow>
                 severity ins =
                   (if toLowerCase s \<in> set [''low'', ''medium'', ''high'', ''critical'']
                    then toLowerCase s else ''medium''))
          | Some v \<Rightarrow> validateAndSanitize rawJson t = Inl TypeError)"
proof -
  have v: "validateAndSanitize rawJson t = sanitize data t"
    using assms by (simp add: validateAndSanitize_def)
  show ?thesis
  proof (cases "stringOrNullish (getProp data ''severity'')")
    case True
    then show ?thesis
      unfolding v
      by (auto simp: stringOrNullish_def severityOf_def
          split: option.splits json.splits dest!: sanitize_severity)
  next
    case False
    then have "\<not> wellTyped data"
      by (simp add: wellTyped_def)
    then have "\<And>ins. sanitize data t \<noteq> Inr ins"
      using sanitize_wellTyped by blast
    then have "sanitize data t = Inl TypeError"
      using sanitize_error [of data t] by (cases "sanitize data t") auto
    with False show ?thesis
      unfolding v
      by (auto simp: stringOrNullish_def split: option.splits json.splits)
  qed
qed

text \<open>Witness for C10: a numeric and a boolean severity.\<close>

theorem severity_type_error_witness:
  \<open>validateAndSanitize ''{"severity": 3}'' loginTest = Inl TypeError
   \<and> validateAndSanitize ''{"severity": true}'' loginTest = Inl TypeError\<close>
proof -
  have p1: \<open>JSON_parse (extractJson ''{"severity": 3}'') = Some (JObj [(''severity'', JNum 3)])\<close>
    by code_simp
  have p2: \<open>JSON_parse (extractJson ''{"severity": true}'') = Some (JObj [(''severity'', JBool True)])\<close>
    by code_simp
  from severity_type_error [OF p1, of loginTest] severity_type_error [OF p2, of loginTest]
  show ?thesis
    by (simp add: getProp_def)
qed

text \<open>
  Claim C7. When none of the three environment variables holds a non-empty credential,
  every call of the Inference Invoker fails at once with the error
  \<open>API Key missing\<close>, and no request has been sent to any model: the network state is
  the one before the call.
\<close>

theorem no_credential_fails_fast:
  assumes "\<not> strTruthy (HUGGINGFACE_API_TOKEN e)"
      and "\<not> strTruthy (HF_API_KEY_var e)"
      and "\<not> strTruthy (HUGGINGFACEHUB_API_TOKEN e)"
  shows "getAiInsight prov (hf e) t n = (Inl ApiKeyMissing, n)
         \<and> sent (snd (getAiInsight prov (hf e) t n)) = sent n"
proof -
  from assms have "hf e = None"
    by (simp add: hf_def HF_API_KEY_def)
  then show ?thesis
    by (simp add: getAiInsight_def)
qed

text \<open>
  Witness for C7: an environment with one empty variable, and a provider that would
  answer every request.
\<close>

theorem no_credential_fails_fast_witness:
  "getAiInsight steadyProvider
     (hf \<lparr>HUGGINGFACE_API_TOKEN = None, HF_API_KEY_var = Some [], HUGGINGFACEHUB_API_TOKEN = None\<rparr>)
     loginTest idle = (Inl ApiKeyMissing, idle)
   \<and> sent idle = []"
  using no_credential_fails_fast
    [of "\<lparr>HUGGINGFACE_API_TOKEN = None, HF_API_KEY_var = Some [], HUGGINGFACEHUB_API_TOKEN = None\<rparr>"
        steadyProvider loginTest idle]
  by (simp add: strTruthy_def idle_def)

text \<open>
  Claim C6 (amended). The Insight Validator extracts the text from the first opening
  brace to the last closing brace of the response: for an object wrapped in commentary
  that has no opening brace before it and no closing brace after it, that is exactly the
  object. For every response it throws the error \<open>Malformed JSON response\<close> if and only
  if \<open>JSON.parse\<close> rejects the extracted text.
\<close>

theorem malformed_iff_unparsable:
  assumes "CHR ''{'' \<notin> set pre" and "CHR ''}'' \<notin> set post"
  shows "extractJson (pre @ ''{'' @ mid @ ''}'' @ post) = ''{'' @ mid @ ''}''
    \<and> (validateAndSanitize (pre @ ''{'' @ mid @ ''}'' @ post) t = Inl MalformedResponse
         \<longleftrightarrow> JSON_parse (''{'' @ mid @ ''}'') = None)
    \<and> (\<forall>rawJson. validateAndSanitize rawJson t = Inl MalformedResponse
         \<longleftrightarrow> JSON_parse (extractJson rawJson) = None)"
proof -
  have e: "extractJson (pre @ ''{'' @ mid @ ''}'' @ post) = ''{'' @ mid @ ''}''"
    using matchBraces_wrapped [OF assms, of mid] by (simp add: extractJson_def)
  have g: "validateAndSanitize rawJson t = Inl MalformedResponse
         \<longleftrightarrow> JSON_parse (extractJson rawJson) = None" for rawJson
    by (auto simp: validateAndSanitize_def split: option.splits dest: sanitize_error)
  from e g [of "pre @ ''{'' @ mid @ ''}'' @ post"] g show ?thesis
    by simp
qed

text \<open>Witness for C6: an object between two sentences without braces.\<close>

theorem malformed_iff_unparsable_witness:
  \<open>extractJson (''Sure! '' @ ''{'' @ ''"summary": "ok"'' @ ''}'' @ '' Hope this helps.'')
      = ''{"summary": "ok"}''
   \<and> validateAndSanitize ''Sure! {"summary": "ok"} Hope this helps.'' loginTest
      \<noteq> Inl MalformedResponse\<close>
proof -
  have p: \<open>JSON_parse (''{'' @ ''"summary": "ok"'' @ ''}'') \<noteq> None\<close>
    by code_simp
  from malformed_iff_unparsable
    [of \<open>''Sure! ''\<close> \<open>'' Hope this helps.''\<close> \<open>''"summary": "ok"''\<close> loginTest] p
  show ?thesis
    by simp
qed

text \<open>
  Counterexample to C6 as stated: a valid object follows commentary with braces, or is
  followed by a second object; the extracted text is not the first balanced object, and
  the validator throws although the object is recoverable. Conversely the responses
  \<open>null\<close> and \<open>42\<close> hold no JSON object, yet the first gives a TypeError and the
  second an insight of defaults.
\<close>

theorem malformed_iff_unparsable_counterexample:
  \<open>JSON_parse ''{"summary": "ok"}'' = Some (JObj [(''summary'', JStr ''ok'')])
   \<and> extractJson ''Use {braces}: {"summary": "ok"}'' = ''{braces}: {"summary": "ok"}''
   \<and> validateAndSanitize ''Use {braces}: {"summary": "ok"}'' loginTest = Inl MalformedResponse
   \<and> extractJson ''{"summary": "ok"} and {"severity": "low"}''
        = ''{"summary": "ok"} and {"severity": "low"}''
   \<and> validateAndSanitize ''{"summary": "ok"} and {"severity": "low"}'' loginTest
        = Inl MalformedResponse
   \<and> validateAndSanitize ''null'' loginTest = Inl TypeError
   \<and> (case validateAndSanitize ''42'' loginTest of Inr ins \<Rightarrow> True | Inl e \<Rightarrow> False)\<close>
  by code_simp

text \<open>
  Claim C4 (amended). If the Inference Invoker fails for a candidate, as it does when no
  credential is present, the Orchestrator attaches the fallback record to the test: its
  confidence is 0, its severity is \<open>medium\<close> and its first tag is
  \<open>ai-unavailable\<close>. For the failing test titled \<open>[auth] login redirects\<close> with the
  error \<open>Timed out retrying after 4000ms\<close> the tags are \<open>ai-unavailable\<close> and
  \<open>auth\<close>; the tag \<open>timing\<close> is among the tags whenever the lower-cased error
  message and title hold \<open>timeout\<close> or \<open>waited\<close>.
\<close>

theorem fallback_attached:
  assumes "fst (getAiInsight prov client t n) = Inl e"
  shows "ai (fst (enrich prov client t n)) = Some (getFallbackInsight t)
    \<and> confidence (getFallbackInsight t) = 0
    \<and> severity (getFallbackInsight t) = ''medium''
    \<and> hd (tags (getFallbackInsight t)) = JStr ''ai-unavailable''
    \<and> fst (getAiInsight prov None t n) = Inl ApiKeyMissing
    \<and> tags (getFallbackInsight loginTest) = [JStr ''ai-unavailable'', JStr ''auth'']
    \<and> (includesStr (toLowerCase ((case errMessage t of None \<Rightarrow> [] | Some m \<Rightarrow> m)
              @ '' '' @ toStr (title t))) ''timeout''
         \<or> includesStr (toLowerCase ((case errMessage t of None \<Rightarrow> [] | Some m \<Rightarrow> m)
              @ '' '' @ toStr (title t))) ''waited''
        \<longrightarrow> JStr ''timing'' \<in> set (tags (getFallbackInsight t)))"
proof -
  have "tags (getFallbackInsight loginTest) = [JStr ''ai-unavailable'', JStr ''auth'']"
    by code_simp
  then show ?thesis
    using enrich_fallback [OF assms] fallback_timing [of t]
    by (simp add: getFallbackInsight_def Let_def getAiInsight_def)
qed

text \<open>Witness for C4: a credential is present and every model rejects the request.\<close>

theorem fallback_attached_witness:
  "ai (fst (enrich deadProvider (Some ''key'') loginTest idle)) = Some (getFallbackInsight loginTest)
   \<and> confidence (getFallbackInsight loginTest) = 0
   \<and> severity (getFallbackInsight loginTest) = ''medium''
   \<and> tags (getFallbackInsight loginTest) = [JStr ''ai-unavailable'', JStr ''auth'']"
proof -
  have "fst (getAiInsight deadProvider (Some ''key'') loginTest idle) = Inl AllModelsFailed"
    by code_simp
  from fallback_attached [OF this] show ?thesis
    by simp
qed

text \<open>
  Counterexample to C4 as stated: without a credential the scenario's test gets the
  fallback record, and \<open>timing\<close> is not among its tags, since its texts hold
  \<open>timed out\<close> but neither \<open>timeout\<close> nor \<open>waited\<close>.
\<close>

theorem fallback_attached_counterexample:
  "ai (fst (enrich deadProvider None loginTest idle)) = Some (getFallbackInsight loginTest)
   \<and> tags (getFallbackInsight loginTest) = [JStr ''ai-unavailable'', JStr ''auth'']
   \<and> JStr ''timing'' \<notin> set (tags (getFallbackInsight loginTest))
   \<and> \<not> includesStr (toLowerCase ''Timed out retrying after 4000ms [auth] login redirects'') ''timeout''"
  by code_simp

text \<open>
  Claim C5 (amended). When a credential is present, the Inference Invoker asks the models
  of \<open>CONFIG.models\<close> in list order, one request each. It returns at the first model
  whose reply validates, with the validated insight stamped with that model's name, after
  the attempts at all earlier models failed; and it fails, with the error
  \<open>All AI models failed\<close>, only when the attempt at every model of the list failed.
\<close>

theorem first_success_wins:
  "case getAiInsight prov (Some key) t n of
     (Inr ins, n') \<Rightarrow>
       (\<exists>k < length CONFIG_models.
          (\<forall>j < k. isl (attempt
               (repliesInTurn prov (buildPrompt t) CONFIG_models (world n) ! j) t
               (CONFIG_models ! j)))
          \<and> attempt (repliesInTurn prov (buildPrompt t) CONFIG_models (world n) ! k) t
               (CONFIG_models ! k) = Inr ins
          \<and> modelUsed ins = Some (CONFIG_models ! k)
          \<and> sent n' = sent n @ map (\<lambda>m. (m, buildPrompt t)) (take (Suc k) CONFIG_models))
   | (Inl e, n') \<Rightarrow>
       e = AllModelsFailed
       \<and> (\<forall>j < length CONFIG_models. isl (attempt
               (repliesInTurn prov (buildPrompt t) CONFIG_models (world n) ! j) t
               (CONFIG_models ! j)))
       \<and> sent n' = sent n @ map (\<lambda>m. (m, buildPrompt t)) CONFIG_models"
proof -
  have g: "getAiInsight prov (Some key) t n = tryModels prov t (buildPrompt t) CONFIG_models n"
    by (simp add: getAiInsight_def)
  show ?thesis
    unfolding g
    using tryModels_spec [where prov = prov and t = t and p = "buildPrompt t" and ms = CONFIG_models and n = n]
    by (auto split: prod.splits sum.splits dest: attempt_stamps)
qed

text \<open>
  Witness for C5: the first request is rejected and the second is answered, so the
  insight carries the name of the second model and two requests were sent.
\<close>

theorem first_success_wins_witness:
  "(case getAiInsight flakyProvider (Some ''key'') loginTest idle of
      (Inr ins, n') \<Rightarrow>
         modelUsed ins = Some ''mistralai/Mixtral-8x7B-Instruct-v0.1''
         \<and> modelUsed ins \<in> Some ` set CONFIG_models
         \<and> map fst (sent n') = take 2 CONFIG_models
    | (Inl e, n') \<Rightarrow> False)"
proof -
  have ev: "(case getAiInsight flakyProvider (Some ''key'') loginTest idle of
      (Inr ins, n') \<Rightarrow>
         modelUsed ins = Some ''mistralai/Mixtral-8x7B-Instruct-v0.1''
         \<and> map fst (sent n') = take 2 CONFIG_models
    | (Inl e, n') \<Rightarrow> False)"
    by code_simp
  from first_success_wins [where prov = flakyProvider and key = "''key''" and t = loginTest and n = idle] ev
  show ?thesis
    by (auto split: prod.splits sum.splits)
qed

text \<open>
  Counterexample to C5 as stated: without a credential the Invoker fails although no
  model was asked and the first model would have given a valid reply.
\<close>

theorem first_success_wins_counterexample:
  "getAiInsight steadyProvider None loginTest idle = (Inl ApiKeyMissing, idle)
   \<and> sent idle = []
   \<and> \<not> isl (attempt (hd (repliesInTurn steadyProvider (buildPrompt loginTest) CONFIG_models
                             (world idle)))
               loginTest (hd CONFIG_models))"
  by code_simp

text \<open>
  Claim C1 (amended). For every non-empty list of parsed fragment files that each have a
  \<open>stats\<close> object, \<open>getResults\<close> returns a report whose suites, tests, passes,
  pending, failures, duration, testsRegistered and skipped are the field-wise sums over
  the fragments (a counter that a fragment lacks counts as 0), and whose passPercent is
  the merged passes divided by the merged testsRegistered, times 100, and 0 when the
  merged testsRegistered is 0.
\<close>

theorem merge_additive:
  assumes "files \<noteq> []" and "\<forall>f \<in> set files. hasStats f"
  shows "\<exists>m ms. getResults now1 now2 files resultsFile baseResultsFile = Inr (Some m)
    \<and> stats m = Some ms
    \<and> suites ms = Some (sumOf suites files)
    \<and> tests ms = Some (sumOf tests files)
    \<and> passes ms = Some (sumOf passes files)
    \<and> pending ms = Some (sumOf pending files)
    \<and> failures ms = Some (sumOf failures files)
    \<and> duration' ms = Some (sumOf duration' files)
    \<and> testsRegistered ms = Some (sumOf testsRegistered files)
    \<and> skipped ms = Some (sumOf skipped files)
    \<and> passPercent ms =
          Some (if sumOf testsRegistered files = 0 then 0
                else of_nat (sumOf passes files) / of_nat (sumOf testsRegistered files) * 100)"
proof -
  define master :: report where
    "master = \<lparr> stats = Some (masterStats now1 now2), results = Some [], meta = Some (JObj []) \<rparr>"
  have "stats master = Some (masterStats now1 now2)"
    by (simp add: master_def)
  from mergeAll_sums [OF assms(2) this, of 0 0 0 0 0 0 0 0]
  obtain m ms' where
    m: "mergeAll master files = Inr m" and s: "stats m = Some ms'"
    and f: "suites ms' = Some (sumOf suites files)"
      "tests ms' = Some (sumOf tests files)"
      "passes ms' = Some (sumOf passes files)"
      "pending ms' = Some (sumOf pending files)"
      "failures ms' = Some (sumOf failures files)"
      "duration' ms' = Some (sumOf duration' files)"
      "testsRegistered ms' = Some (sumOf testsRegistered files)"
      "skipped ms' = Some (sumOf skipped files)"
    and p: "passPercent ms' = passPercent (masterStats now1 now2)"
    by (auto simp: masterStats_def)
  have g: "getResults now1 now2 files resultsFile baseResultsFile
      = Inr (Some (m\<lparr>stats := Some (recalculate ms')\<rparr>))"
    using assms(1) m s by (simp add: getResults_def master_def [symmetric])
  have r: "suites (recalculate ms') = suites ms'" "tests (recalculate ms') = tests ms'"
    "passes (recalculate ms') = passes ms'" "pending (recalculate ms') = pending ms'"
    "failures (recalculate ms') = failures ms'" "duration' (recalculate ms') = duration' ms'"
    "testsRegistered (recalculate ms') = testsRegistered ms'"
    "skipped (recalculate ms') = skipped ms'"
    by (simp_all add: recalculate_def)
  have pp: "passPercent (recalculate ms') =
      Some (if sumOf testsRegistered files = 0 then 0
            else of_nat (sumOf passes files) / of_nat (sumOf testsRegistered files) * 100)"
    using f p by (simp add: recalculate_def or0_def masterStats_def)
  show ?thesis
    unfolding g using r f pp by simp
qed

text \<open>
  Witness for C1: fragments with 5 of 5 and with 1 of 3 registered tests passed merge to
  8 tests, 6 passes and a passPercent of 75.
\<close>

theorem merge_additive_witness:
  "(case getResults ''t1'' ''t2''
      [Some \<lparr> stats = Some (noStats\<lparr>tests := Some 5, passes := Some 5, testsRegistered := Some 5\<rparr>),
              results = None, meta = None \<rparr>,
       Some \<lparr> stats = Some (noStats\<lparr>tests := Some 3, passes := Some 1, testsRegistered := Some 3\<rparr>),
              results = None, meta = None \<rparr>]
      None None of
      Inr (Some m) \<Rightarrow>
        (case stats m of
           Some ms \<Rightarrow> tests ms = Some 8 \<and> passes ms = Some 6 \<and> passPercent ms = Some 75
         | None \<Rightarrow> False)
    | _ \<Rightarrow> False)"
  using merge_additive [of
      "[Some \<lparr> stats = Some (noStats\<lparr>tests := Some 5, passes := Some 5, testsRegistered := Some 5\<rparr>),
              results = None, meta = None \<rparr>,
       Some \<lparr> stats = Some (noStats\<lparr>tests := Some 3, passes := Some 1, testsRegistered := Some 3\<rparr>),
              results = None, meta = None \<rparr>]"
      "''t1''" "''t2''" None None]
  by (auto simp: hasStats_def sumOf_def counterOf_def or0_def noStats_def)

text \<open>
  Counterexample to C1 as stated: the fragments \<open>{tests:5, passes:5}\<close> and
  \<open>{tests:3, passes:1}\<close> have no \<open>testsRegistered\<close>, so the merged passPercent is 0
  and not 75; a parsed fragment without \<open>stats\<close> makes the merge throw; and for no
  fragment file at all the result is not a merged report.
\<close>

theorem merge_additive_counterexample:
  "(case getResults ''t1'' ''t2''
      [Some \<lparr> stats = Some (noStats\<lparr>tests := Some 5, passes := Some 5\<rparr>),
              results = None, meta = None \<rparr>,
       Some \<lparr> stats = Some (noStats\<lparr>tests := Some 3, passes := Some 1\<rparr>),
              results = None, meta = None \<rparr>]
      None None of
      Inr (Some m) \<Rightarrow>
        (case stats m of
           Some ms \<Rightarrow> tests ms = Some 8 \<and> passes ms = Some 6 \<and> passPercent ms = Some 0
         | None \<Rightarrow> False)
    | _ \<Rightarrow> False)
   \<and> getResults ''t1'' ''t2'' [Some \<lparr> stats = None, results = Some [], meta = None \<rparr>] None None
       = Inl TypeError
   \<and> getResults ''t1'' ''t2'' [] None None = Inr None"
  by code_simp

text \<open>
  Claim C2. A test is a candidate only if it has failed and its \<open>ai\<close> field is absent.
  After a run of the pipeline on a report no test of the report is a candidate, and a
  second run on the output of the first, with whatever provider, credential and network
  state, returns that report unchanged and sends nothing.
\<close>

theorem second_run_is_noop:
  "(\<forall>t \<in> set (candidates rs). (fail t \<or> state t = Some ''failed'') \<and> ai t = None)
   \<and> (case results (fst (processReport prov client rep n)) of
         None \<Rightarrow> True
       | Some rs1 \<Rightarrow> candidates rs1 = [])
   \<and> processReport prov' client' (fst (processReport prov client rep n)) n'
       = (fst (processReport prov client rep n), n')"
proof -
  have a: "\<forall>t \<in> set (candidates rs). (fail t \<or> state t = Some ''failed'') \<and> ai t = None"
    using candidates_are_candidates [of _ rs] by (auto simp: isCandidate_def)
  have b: "(case results (fst (processReport prov client rep n)) of
         None \<Rightarrow> True
       | Some rs1 \<Rightarrow> candidates rs1 = [])"
  proof (cases "results rep")
    case None
    then show ?thesis by (simp add: processReport_def)
  next
    case (Some rs0)
    then show ?thesis
      using enrichSuite_settled(2) [of prov client rs0 n]
      by (simp add: processReport_def split_beta)
  qed
  have c: "processReport prov' client' r n' = (r, n')"
    if "case results r of None \<Rightarrow> True | Some rs1 \<Rightarrow> candidates rs1 = []" for r
    using that by (simp add: processReport_def split: option.splits)
  from a b c [OF b] show ?thesis
    by simp
qed

text \<open>
  Witness for C2: the example report has one candidate; the first run annotates it with
  the insight of the second model, and the second run changes nothing.
\<close>

theorem second_run_is_noop_witness:
  "candidates [exampleSuite] = [loginTest]
   \<and> ai loginTest = None
   \<and> (case results (fst (processReport flakyProvider (Some ''key'') exampleReport idle)) of
         None \<Rightarrow> False
       | Some rs1 \<Rightarrow>
           candidates rs1 = []
           \<and> map (map_option modelUsed \<circ> ai) (concat (map suiteTests (subSuites (hd rs1))))
               = [Some (Some ''mistralai/Mixtral-8x7B-Instruct-v0.1'')])
   \<and> processReport steadyProvider None
        (fst (processReport flakyProvider (Some ''key'') exampleReport idle)) idle
       = (fst (processReport flakyProvider (Some ''key'') exampleReport idle), idle)"
proof -
  have ev: "candidates [exampleSuite] = [loginTest]
   \<and> ai loginTest = None
   \<and> (case results (fst (processReport flakyProvider (Some ''key'') exampleReport idle)) of
         None \<Rightarrow> False
       | Some rs1 \<Rightarrow>
           map (map_option modelUsed \<circ> ai) (concat (map suiteTests (subSuites (hd rs1))))
               = [Some (Some ''mistralai/Mixtral-8x7B-Instruct-v0.1'')])"
    by code_simp
  from second_run_is_noop [where prov = flakyProvider and client = "Some ''key''"
      and rep = exampleReport and n = idle and prov' = steadyProvider and client' = None
      and n' = idle and rs = "[exampleSuite]"] ev
  show ?thesis
    by (auto split: option.splits)
qed

text \<open>
  Claim C9 (amended). The rename step never overwrites a file: a rename is skipped
  whenever the destination name exists, so the folder keeps its number of files. It is
  idempotent, a second run over any listing leaving the names and contents of the first
  run as they are, for every finite folder whose listing holds all its files and whose
  targets are settled: no parsed file with a generic name sits at the destination of
  another file unless that name is its own destination.
\<close>

theorem rename_idempotent:
  assumes "settledTargets dir" and "dom dir \<subseteq> set rawFiles" and "finite (dom dir)"
  shows "renameStep (renameStep dir rawFiles) rawFiles' = renameStep dir rawFiles
    \<and> card (dom (renameStep dir rawFiles)) = card (dom dir)
    \<and> (\<forall>d f data. d f = Some (Some data) \<and> d (newPath data) \<noteq> None
          \<longrightarrow> renameOne d f = d)"
proof -
  have "\<forall>f \<in> - dom dir. renameOne dir f = dir"
    by (auto simp: renameOne_def)
  from renameStep_invariant [OF assms(1) this, of rawFiles]
  have inv: "\<forall>f \<in> - dom dir \<union> set rawFiles.
      renameOne (renameStep dir rawFiles) f = renameStep dir rawFiles"
    by blast
  have "f \<in> - dom dir \<union> set rawFiles" for f
    using assms(2) by auto
  with inv have "\<forall>f. renameOne (renameStep dir rawFiles) f = renameStep dir rawFiles"
    by blast
  then have a: "renameStep (renameStep dir rawFiles) rawFiles' = renameStep dir rawFiles"
    by (rule renameStep_stable)
  have c: "\<forall>d f data. d f = Some (Some data) \<and> d (newPath data) \<noteq> None
          \<longrightarrow> renameOne d f = d"
    by (auto simp: renameOne_stable_iff)
  from a renameStep_card [OF assms(3), of rawFiles] c show ?thesis
    by blast
qed

text \<open>
  Witness for C9: two shards of one spec. The first is renamed, the second stays, since
  its destination is taken, and a second run changes nothing.
\<close>

theorem rename_idempotent_witness:
  "renameStep (renameStep shardFolder [''results_001.json'', ''results_002.json''])
       [''results_002.json'', ''login_results.json'']
     = renameStep shardFolder [''results_001.json'', ''results_002.json'']
   \<and> card (dom (renameStep shardFolder [''results_001.json'', ''results_002.json''])) = 2
   \<and> renameStep shardFolder [''results_001.json'', ''results_002.json''] ''login_results.json''
       = Some (Some (fragmentOf ''cypress/e2e/login.cy.js''))
   \<and> renameStep shardFolder [''results_001.json'', ''results_002.json''] ''results_002.json''
       = Some (Some (fragmentOf ''cypress/e2e/login.cy.js''))
   \<and> renameStep shardFolder [''results_001.json'', ''results_002.json''] ''results_001.json''
       = None"
proof -
  have s: "settledTargets shardFolder"
    by (auto simp: settledTargets_def shardFolder_def shard_facts split: if_splits)
  have d: "dom shardFolder = {''results_001.json'', ''results_002.json''}"
    by (auto simp: shardFolder_def split: if_splits)
  have c: "card (dom shardFolder) = 2"
    unfolding d by simp
  have ev: "renameStep shardFolder [''results_001.json'', ''results_002.json''] ''login_results.json''
       = Some (Some (fragmentOf ''cypress/e2e/login.cy.js''))
   \<and> renameStep shardFolder [''results_001.json'', ''results_002.json''] ''results_002.json''
       = Some (Some (fragmentOf ''cypress/e2e/login.cy.js''))
   \<and> renameStep shardFolder [''results_001.json'', ''results_002.json''] ''results_001.json''
       = None"
    by (simp add: renameStep_def renameOne_def renameSync_def shardFolder_def shard_facts)
  from rename_idempotent [of shardFolder "[''results_001.json'', ''results_002.json'']"
      "[''results_002.json'', ''login_results.json'']"] s d c ev
  show ?thesis
    by simp
qed

text \<open>
  Counterexample to C9 as stated: \<open>results_1.json\<close> is kept by the first run, because
  its destination \<open>results_foo_results.json\<close> exists; that file is then renamed to
  \<open>bar_results.json\<close>, and the second run renames \<open>results_1.json\<close> to the name that
  became free. The file names after two runs differ from those after one.
\<close>

theorem rename_idempotent_counterexample:
  "renameStep clashFolder [''results_1.json'', ''results_foo_results.json''] ''results_1.json''
     \<noteq> None
   \<and> renameStep clashFolder [''results_1.json'', ''results_foo_results.json'']
       ''results_foo_results.json'' = None
   \<and> renameStep clashFolder [''results_1.json'', ''results_foo_results.json'']
       ''bar_results.json'' \<noteq> None
   \<and> renameStep (renameStep clashFolder [''results_1.json'', ''results_foo_results.json''])
       [''results_1.json'', ''bar_results.json''] ''results_1.json'' = None
   \<and> renameStep (renameStep clashFolder [''results_1.json'', ''results_foo_results.json''])
       [''results_1.json'', ''bar_results.json''] ''results_foo_results.json'' \<noteq> None"
  by code_simp

end
